theory Spec2Isabelle
  imports Complex_Main
begin

section \<open>Python values and errors\<close>

text \<open>
  Numbers read from the hardware and from the widgets are Python numbers; they are
  modelled as exact reals (a Python bool is the number 0 or 1, and a value is truthy
  when it is not 0). Every exception of the source is a value of \<open>error\<close>.
  An attribute written \<open>_name\<close> in the source is the field \<open>u_name\<close> here.
\<close>

datatype error = AttributeError | TypeError | KeyError string | ZeroDivisionError | IndexError

type_synonym state = "string \<rightharpoonup> real"

text \<open>\<open>d[key]\<close> on a dict raises KeyError when the key is absent.\<close>

definition getitem :: "state \<Rightarrow> string \<Rightarrow> error + real" where
  "getitem d k = (case d k of None \<Rightarrow> Inl (KeyError k) | Some x \<Rightarrow> Inr x)"

text \<open>\<open>d[key]\<close> where \<open>d\<close> may still be the class default \<open>None\<close>.\<close>

definition getitem_opt :: "state option \<Rightarrow> string \<Rightarrow> error + real" where
  "getitem_opt d k = (case d of None \<Rightarrow> Inl TypeError | Some m \<Rightarrow> getitem m k)"

section \<open>logic/joystick\_logic.py\<close>

text \<open>
  A single-shot timer: \<open>interval\<close> is \<open>Some ms\<close> while the timer is armed with the
  argument given to \<open>start\<close>, and \<open>None\<close> while it is stopped.
\<close>

record QTimer =
  singleShot :: bool
  timeout_loop :: bool
  interval :: "real option"

text \<open>
  A signal object. \<open>QtCore.Signal()\<close> evaluated at run time, as \<open>on_activate\<close> does,
  gives an unbound signal, which has no \<open>emit\<close> attribute; a signal is bound only when
  it is declared in a class body and read through an instance, as
  \<open>sig_controller_changed\<close> is. The event table maps a control to a dict from signal
  name to signal object. A missing attribute is \<open>None\<close>.
\<close>

datatype signal = Signal_unbound | Signal_bound

type_synonym event_table = "string \<rightharpoonup> (string \<rightharpoonup> signal)"

datatype emission = Control string string | sig_controller_changed

record JoystickLogic =
  u_hardware :: bool
  u_fps :: real
  timer :: "QTimer option"
  enabled :: bool
  u_last_state :: "state option"
  events :: "event_table option"
  u_events :: "event_table option"

definition u_button_list :: "string list" where
  "u_button_list =
     [''left_up'', ''left_down'', ''left_left'', ''left_right'', ''left_joystick'',
      ''right_up'', ''right_down'', ''right_left'', ''right_right'', ''right_joystick'',
      ''middle_left'', ''middle_right'', ''left_shoulder'', ''right_shoulder'']"

definition u_axis_list :: "string list" where
  "u_axis_list =
     [''left_vertical'', ''left_horizontal'', ''right_vertical'', ''right_horizontal'',
      ''left_trigger'', ''right_trigger'']"

text \<open>
  The object as the class body leaves it: no hardware, no timer, disabled, no last state,
  \<open>events = None\<close>; the class never assigns \<open>_events\<close>. The configured rate is a
  parameter.
\<close>

definition JoystickLogic_init :: "real \<Rightarrow> JoystickLogic" where
  "JoystickLogic_init max_fps =
     \<lparr>u_hardware = False, u_fps = max_fps, timer = None, enabled = False,
      u_last_state = None, events = None, u_events = None\<rparr>"

text \<open>\<open>self.timer.start(1000*1/self._fps)\<close>: the callee is looked up before the argument.\<close>

definition timer_start :: "JoystickLogic \<Rightarrow> error + JoystickLogic" where
  "timer_start obj =
     (case timer obj of
        None \<Rightarrow> Inl AttributeError
      | Some t \<Rightarrow>
          if u_fps obj = 0 then Inl ZeroDivisionError
          else Inr (obj\<lparr>timer := Some (t\<lparr>interval := Some (1000 * 1 / u_fps obj)\<rparr>)\<rparr>))"

definition fps :: "real option \<Rightarrow> JoystickLogic \<Rightarrow> real \<times> JoystickLogic" where
  "fps v obj =
     (let obj' = (case v of None \<Rightarrow> obj | Some x \<Rightarrow> obj\<lparr>u_fps := x\<rparr>)
      in (u_fps obj', obj'))"

definition start_loop :: "JoystickLogic \<Rightarrow> error + JoystickLogic" where
  "start_loop obj = timer_start (obj\<lparr>enabled := True\<rparr>)"

definition stop_loop :: "JoystickLogic \<Rightarrow> error + JoystickLogic" where
  "stop_loop obj =
     (case timer obj of
        None \<Rightarrow> Inl AttributeError
      | Some t \<Rightarrow> Inr (obj\<lparr>timer := Some (t\<lparr>interval := None\<rparr>), enabled := False\<rparr>))"

text \<open>
  \<open>self._events[control][key].emit()\<close>: the attribute, the two subscripts, then
  \<open>emit\<close>, which an unbound signal does not have. A successful emission is recorded at
  the end of the trace.
\<close>

definition emit :: "event_table option \<Rightarrow> string \<Rightarrow> string \<Rightarrow> emission list \<Rightarrow> error + emission list" where
  "emit ev c k tr =
     (case ev of
        None \<Rightarrow> Inl AttributeError
      | Some d \<Rightarrow>
          (case d c of
             None \<Rightarrow> Inl (KeyError c)
           | Some sigs \<Rightarrow>
               (case sigs k of
                  None \<Rightarrow> Inl (KeyError k)
                | Some Signal_unbound \<Rightarrow> Inl AttributeError
                | Some Signal_bound \<Rightarrow> Inr (tr @ [Control c k]))))"

text \<open>The loop over \<open>_button_list\<close>; the accumulator is \<open>changed\<close> and the trace.\<close>

fun loop_buttons ::
  "event_table option \<Rightarrow> state \<Rightarrow> state option \<Rightarrow> string list \<Rightarrow> bool \<times> emission list
     \<Rightarrow> error + bool \<times> emission list" where
  "loop_buttons ev st old [] acc = Inr acc"
| "loop_buttons ev st old (button # rest) (changed, tr) =
     (case getitem st button of
        Inl e \<Rightarrow> Inl e
      | Inr new \<Rightarrow>
          (case getitem_opt old button of
             Inl e \<Rightarrow> Inl e
           | Inr prev \<Rightarrow>
               if new \<noteq> prev then
                 (case emit ev button ''value_change'' tr of
                    Inl e \<Rightarrow> Inl e
                  | Inr tr1 \<Rightarrow>
                      if new \<noteq> 0 then
                        (case emit ev button ''pressed'' tr1 of
                           Inl e \<Rightarrow> Inl e
                         | Inr tr2 \<Rightarrow> loop_buttons ev st old rest (True, tr2))
                      else loop_buttons ev st old rest (True, tr1))
               else loop_buttons ev st old rest (changed, tr)))"

text \<open>The loop over \<open>_axis_list\<close>.\<close>

fun loop_axes ::
  "event_table option \<Rightarrow> state \<Rightarrow> state option \<Rightarrow> string list \<Rightarrow> bool \<times> emission list
     \<Rightarrow> error + bool \<times> emission list" where
  "loop_axes ev st old [] acc = Inr acc"
| "loop_axes ev st old (axis # rest) (changed, tr) =
     (case getitem st axis of
        Inl e \<Rightarrow> Inl e
      | Inr new \<Rightarrow>
          (case getitem_opt old axis of
             Inl e \<Rightarrow> Inl e
           | Inr prev \<Rightarrow>
               if new \<noteq> prev then
                 (case emit ev axis ''value_change'' tr of
                    Inl e \<Rightarrow> Inl e
                  | Inr tr1 \<Rightarrow> loop_axes ev st old rest (True, tr1))
               else loop_axes ev st old rest (changed, tr)))"

text \<open>
  One timer tick. \<open>hw\<close> is what \<open>self._hardware.get_state()\<close> returns in this call;
  the result is the object afterwards and the signals emitted, in order.
\<close>

definition loop :: "state \<Rightarrow> JoystickLogic \<Rightarrow> error + JoystickLogic \<times> emission list" where
  "loop hw obj =
     (let old_state = u_last_state obj in
      if \<not> u_hardware obj then Inl AttributeError
      else if \<not> enabled obj then Inr (obj, [])
      else
        (case loop_buttons (u_events obj) hw old_state u_button_list (False, []) of
           Inl e \<Rightarrow> Inl e
         | Inr acc1 \<Rightarrow>
             (case loop_axes (u_events obj) hw old_state u_axis_list acc1 of
                Inl e \<Rightarrow> Inl e
              | Inr (changed, tr) \<Rightarrow>
                  (let tr' = (if changed then tr @ [sig_controller_changed] else tr) in
                   case timer_start obj of
                     Inl e \<Rightarrow> Inl e
                   | Inr obj' \<Rightarrow> Inr (obj', tr')))))"

definition get_last_state :: "JoystickLogic \<Rightarrow> state option" where
  "get_last_state obj = u_last_state obj"

text \<open>\<open>self.events[name] = {...}\<close>: item assignment on \<open>None\<close> raises TypeError.\<close>

definition events_setitem ::
  "(string \<rightharpoonup> signal) \<Rightarrow> JoystickLogic \<Rightarrow> string \<Rightarrow> error + JoystickLogic" where
  "events_setitem ks obj name =
     (case events obj of
        None \<Rightarrow> Inl TypeError
      | Some d \<Rightarrow> Inr (obj\<lparr>events := Some (d(name \<mapsto> ks))\<rparr>))"

fun register_all ::
  "(string \<rightharpoonup> signal) \<Rightarrow> string list \<Rightarrow> JoystickLogic \<Rightarrow> error + JoystickLogic" where
  "register_all ks [] obj = Inr obj"
| "register_all ks (name # rest) obj =
     (case events_setitem ks obj name of
        Inl e \<Rightarrow> Inl e
      | Inr obj' \<Rightarrow> register_all ks rest obj')"

definition on_activate :: "state \<Rightarrow> JoystickLogic \<Rightarrow> error + JoystickLogic" where
  "on_activate hw obj =
     (let obj1 = obj\<lparr>u_hardware := True,
                      timer := Some \<lparr>singleShot = True, timeout_loop = True, interval = None\<rparr>\<rparr>
      in case register_all [''pressed'' \<mapsto> Signal_unbound, ''value_change'' \<mapsto> Signal_unbound]
                u_button_list obj1 of
           Inl e \<Rightarrow> Inl e
         | Inr obj2 \<Rightarrow>
             (case register_all [''value_change'' \<mapsto> Signal_unbound] u_axis_list obj2 of
                Inl e \<Rightarrow> Inl e
              | Inr obj3 \<Rightarrow> start_loop (obj3\<lparr>u_last_state := Some hw\<rparr>)))"

definition on_deactivate :: "JoystickLogic \<Rightarrow> error + JoystickLogic" where
  "on_deactivate obj = stop_loop obj"

section \<open>Notions used in the statements about the poll loop\<close>

text \<open>
  What one differing button and one differing axis contribute to the trace when their
  signals can be emitted, and the trace expected from two snapshots.
\<close>

definition button_emissions :: "state \<Rightarrow> state \<Rightarrow> string \<Rightarrow> emission list" where
  "button_emissions st old b =
     (if st b \<noteq> old b
      then Control b ''value_change'' # (if st b \<noteq> Some 0 then [Control b ''pressed''] else [])
      else [])"

definition axis_emissions :: "state \<Rightarrow> state \<Rightarrow> string \<Rightarrow> emission list" where
  "axis_emissions st old a = (if st a \<noteq> old a then [Control a ''value_change''] else [])"

definition expected_trace :: "state \<Rightarrow> state \<Rightarrow> emission list" where
  "expected_trace st old =
     concat (map (button_emissions st old) u_button_list) @
     concat (map (axis_emissions st old) u_axis_list) @
     (if \<exists>c\<in>set (u_button_list @ u_axis_list). st c \<noteq> old c then [sig_controller_changed] else [])"

text \<open>The table holds a bound signal under each of the given names of a control.\<close>

definition has_signals :: "event_table \<Rightarrow> string set \<Rightarrow> string \<Rightarrow> bool" where
  "has_signals d ks c =
     (case d c of None \<Rightarrow> False | Some sigs \<Rightarrow> \<forall>k\<in>ks. sigs k = Some Signal_bound)"

text \<open>
  No signal that can be reached through the table can be emitted: the attribute is
  missing, or every signal object in the table is unbound.
\<close>

definition silent :: "event_table option \<Rightarrow> bool" where
  "silent ev =
     (case ev of
        None \<Rightarrow> True
      | Some d \<Rightarrow> \<forall>c sigs k. d c = Some sigs \<longrightarrow> sigs k \<noteq> Some Signal_bound)"

text \<open>
  Two snapshots: every control at 0, and the same with \<open>left_up\<close> pressed.
\<close>

definition idle_state :: state where
  "idle_state = map_of (map (\<lambda>c. (c, 0)) (u_button_list @ u_axis_list))"

definition held_state :: state where
  "held_state = idle_state(''left_up'' \<mapsto> 1)"

text \<open>
  A module that was handed, from outside the class, a table of bound signals as
  \<open>_events\<close> and a stored snapshot, with a timer and \<open>_fps\<close> = 100. The class itself
  never builds such an object.
\<close>

definition all_events :: event_table where
  "all_events =
     map_of (map (\<lambda>b. (b, [''pressed'' \<mapsto> Signal_bound, ''value_change'' \<mapsto> Signal_bound]))
               u_button_list @
             map (\<lambda>a. (a, [''value_change'' \<mapsto> Signal_bound])) u_axis_list)"

definition polling_obj :: "state \<Rightarrow> bool \<Rightarrow> real option \<Rightarrow> JoystickLogic" where
  "polling_obj old en iv =
     \<lparr>u_hardware = True, u_fps = 100,
      timer = Some \<lparr>singleShot = True, timeout_loop = True, interval = iv\<rparr>,
      enabled = en, u_last_state = Some old, events = Some all_events,
      u_events = Some all_events\<rparr>"

text \<open>
  The table that the two loops of \<open>on_activate\<close> build from an empty dict, and the module
  that \<open>on_activate\<close> returns when \<open>events\<close> is an empty dict, \<open>_fps\<close> is 100 and the
  hardware reports the idle snapshot.
\<close>

definition registered_events :: event_table where
  "registered_events =
     fold (\<lambda>a d. d(a \<mapsto> [''value_change'' \<mapsto> Signal_unbound])) u_axis_list
       (fold (\<lambda>b d. d(b \<mapsto> [''pressed'' \<mapsto> Signal_unbound, ''value_change'' \<mapsto> Signal_unbound]))
          u_button_list Map.empty)"

definition activated_obj :: JoystickLogic where
  "activated_obj =
     \<lparr>u_hardware = True, u_fps = 100,
      timer = Some \<lparr>singleShot = True, timeout_loop = True, interval = Some 10\<rparr>,
      enabled = True, u_last_state = Some idle_state, events = Some registered_events,
      u_events = None\<rparr>"

text \<open>
  The module that a freshly constructed object becomes when \<open>on_activate\<close> raises at its
  first item assignment (the hardware and the timer are already set), and the same after
  a later call of \<open>start_loop\<close>.
\<close>

definition failed_activation_obj :: JoystickLogic where
  "failed_activation_obj =
     (JoystickLogic_init 100)
       \<lparr>u_hardware := True,
        timer := Some \<lparr>singleShot = True, timeout_loop = True, interval = None\<rparr>\<rparr>"

definition started_obj :: JoystickLogic where
  "started_obj =
     failed_activation_obj
       \<lparr>enabled := True,
        timer := Some \<lparr>singleShot = True, timeout_loop = True, interval = Some 10\<rparr>\<rparr>"

text \<open>
  The objects the class can build: a constructed object, and whatever a call of one of
  its methods leaves, whether the call returns or raises. \<open>loop\<close> and \<open>stop_loop\<close>
  assign nothing before the point where they can raise; \<open>start_loop\<close> has set
  \<open>enabled\<close> when \<open>timer.start\<close> raises; \<open>on_activate\<close> has set the hardware and the
  timer when an item assignment raises, and can otherwise only raise in \<open>start_loop\<close>.
\<close>

inductive reachable :: "JoystickLogic \<Rightarrow> bool" where
  constructed: "reachable (JoystickLogic_init max_fps)"
| fps_called: "reachable obj \<Longrightarrow> reachable (snd (fps v obj))"
| start_loop_returned: "reachable obj \<Longrightarrow> start_loop obj = Inr obj' \<Longrightarrow> reachable obj'"
| start_loop_raised: "reachable obj \<Longrightarrow> reachable (obj\<lparr>enabled := True\<rparr>)"
| stop_loop_returned: "reachable obj \<Longrightarrow> stop_loop obj = Inr obj' \<Longrightarrow> reachable obj'"
| loop_returned: "reachable obj \<Longrightarrow> loop hw obj = Inr (obj', tr) \<Longrightarrow> reachable obj'"
| on_activate_returned: "reachable obj \<Longrightarrow> on_activate hw obj = Inr obj' \<Longrightarrow> reachable obj'"
| on_activate_raised_registering:
    "reachable obj \<Longrightarrow>
     reachable (obj\<lparr>u_hardware := True,
                    timer := Some \<lparr>singleShot = True, timeout_loop = True, interval = None\<rparr>\<rparr>)"
| on_activate_raised_starting:
    "reachable obj \<Longrightarrow>
     register_all [''pressed'' \<mapsto> Signal_unbound, ''value_change'' \<mapsto> Signal_unbound] u_button_list
       (obj\<lparr>u_hardware := True,
             timer := Some \<lparr>singleShot = True, timeout_loop = True, interval = None\<rparr>\<rparr>) = Inr obj2 \<Longrightarrow>
     register_all [''value_change'' \<mapsto> Signal_unbound] u_axis_list obj2 = Inr obj3 \<Longrightarrow>
     reachable (obj3\<lparr>u_last_state := Some hw, enabled := True\<rparr>)"

section \<open>gui/camera/cameragui.py\<close>

text \<open>
  The region of interest of pyqtgraph: \<open>roi_pos\<close> is its origin (the lower left corner),
  \<open>roi_size\<close> its extent, both as (horizontal, vertical). \<open>userDrag\<close> is the flag of
  \<open>CrossROI\<close>. A crosshair line has its angle and the value last given to \<open>setValue\<close>.
\<close>

record CrossROI =
  roi_pos :: "real \<times> real"
  roi_size :: "real \<times> real"
  userDrag :: bool

record CrossLine =
  angle :: real
  line_value :: real

text \<open>
  The state of the panel once the crosshair exists. A spin box is the value last written
  to it; the image is a list of rows, indexed \<open>[v][h]\<close>; \<open>_image_size\<close> is
  (width, height). \<open>intensity_current\<close> is \<open>None\<close> when the division that computes it has
  a zero divisor (numpy then yields inf or nan and only warns).
\<close>

record CameraGUI =
  roi_xy :: CrossROI
  hline_xy :: CrossLine
  vline_xy :: CrossLine
  u_pixel_size_x :: real
  u_pixel_size_y :: real
  u_raw_data_image :: "real list list"
  u_image_size :: "nat \<times> nat"
  x_current_InputWidget_pixels :: real
  y_current_InputWidget_pixels :: real
  x_current_InputWidget_meter :: real
  y_current_InputWidget_meter :: real
  cursor_x_size_input :: real
  cursor_y_size_input :: real
  intensity_current :: "real option"

text \<open>\<open>CrossLine.adjust\<close>: two independent tests on the angle.\<close>

definition adjust :: "CrossLine \<Rightarrow> CrossROI \<Rightarrow> CrossLine" where
  "adjust line extroi =
     (let l1 = (if angle line = 0
                then line\<lparr>line_value := snd (roi_pos extroi) + snd (roi_size extroi) * 0.5\<rparr>
                else line)
      in if angle l1 = 90
         then l1\<lparr>line_value := fst (roi_pos extroi) + fst (roi_size extroi) * 0.5\<rparr>
         else l1)"

text \<open>Python's \<open>int(x)\<close> on a float truncates towards zero.\<close>

definition py_int :: "real \<Rightarrow> int" where
  "py_int x = (if 0 \<le> x then \<lfloor>x\<rfloor> else \<lceil>x\<rceil>)"

text \<open>\<open>range(a, b)\<close>.\<close>

definition py_range :: "int \<Rightarrow> int \<Rightarrow> int list" where
  "py_range a b = [a..b - 1]"

text \<open>An index into a sequence of length \<open>n\<close>: negative indices count from the end.\<close>

definition py_index :: "nat \<Rightarrow> int \<Rightarrow> error + nat" where
  "py_index n i =
     (let j = (if i < 0 then int n + i else i)
      in if 0 \<le> j \<and> j < int n then Inr (nat j) else Inl IndexError)"

text \<open>\<open>mask[v][h] = 1\<close>.\<close>

definition mask_setitem :: "real list list \<Rightarrow> int \<Rightarrow> int \<Rightarrow> error + real list list" where
  "mask_setitem msk v h =
     (case py_index (length msk) v of
        Inl e \<Rightarrow> Inl e
      | Inr i \<Rightarrow>
          (case py_index (length (msk ! i)) h of
             Inl e \<Rightarrow> Inl e
           | Inr j \<Rightarrow> Inr (msk[i := (msk ! i)[j := 1]])))"

text \<open>The inner loop \<open>for v in range(...)\<close> and the outer loop \<open>for h in range(...)\<close>.\<close>

fun fill_column :: "int \<Rightarrow> int list \<Rightarrow> real list list \<Rightarrow> error + real list list" where
  "fill_column h [] msk = Inr msk"
| "fill_column h (v # vs) msk =
     (case mask_setitem msk v h of
        Inl e \<Rightarrow> Inl e
      | Inr msk' \<Rightarrow> fill_column h vs msk')"

fun fill_columns :: "int list \<Rightarrow> int list \<Rightarrow> real list list \<Rightarrow> error + real list list" where
  "fill_columns [] vs msk = Inr msk"
| "fill_columns (h # hs) vs msk =
     (case fill_column h vs msk of
        Inl e \<Rightarrow> Inl e
      | Inr msk' \<Rightarrow> fill_columns hs vs msk')"

text \<open>The four bounds of \<open>create_mask_ROI\<close>, after its four corrections.\<close>

definition h_bounds :: "CameraGUI \<Rightarrow> int \<times> int" where
  "h_bounds g =
     (let p = fst (roi_pos (roi_xy g)); s = fst (roi_size (roi_xy g));
          b0 = py_int (p - s / 2);
          b1 = py_int (p + s / 2) + 1;
          b1 = (if p + s \<ge> real (fst (u_image_size g)) then int (fst (u_image_size g)) else b1);
          b0 = (if p - s \<le> 0 then 0 else b0)
      in (b0, b1))"

definition v_bounds :: "CameraGUI \<Rightarrow> int \<times> int" where
  "v_bounds g =
     (let p = snd (roi_pos (roi_xy g)); s = snd (roi_size (roi_xy g));
          b0 = py_int (p - s / 2);
          b1 = py_int (p + s / 2) + 1;
          b1 = (if p + s \<ge> real (snd (u_image_size g)) then int (snd (u_image_size g)) else b1);
          b0 = (if p - s \<le> 0 then 0 else b0)
      in (b0, b1))"

definition create_mask_ROI :: "real list list \<Rightarrow> CameraGUI \<Rightarrow> error + real list list" where
  "create_mask_ROI img g =
     (let msk = map (map (\<lambda>x. x * 0)) img
      in fill_columns (py_range (fst (h_bounds g)) (snd (h_bounds g)))
           (py_range (fst (v_bounds g)) (snd (v_bounds g))) msk)"

definition update_intensity :: "CameraGUI \<Rightarrow> error + CameraGUI" where
  "update_intensity g =
     (case create_mask_ROI (u_raw_data_image g) g of
        Inl e \<Rightarrow> Inl e
      | Inr msk \<Rightarrow>
          (let total = sum_list (map sum_list (map2 (map2 (*)) msk (u_raw_data_image g)));
               area = fst (roi_size (roi_xy g)) * snd (roi_size (roi_xy g))
           in Inr (g\<lparr>intensity_current := (if area = 0 then None else Some (total / area))\<rparr>)))"

definition update_input_x :: "real \<Rightarrow> CameraGUI \<Rightarrow> CameraGUI" where
  "update_input_x x_pos g =
     g\<lparr>x_current_InputWidget_pixels := x_pos,
       x_current_InputWidget_meter := x_pos * u_pixel_size_x g\<rparr>"

definition update_input_y :: "real \<Rightarrow> CameraGUI \<Rightarrow> CameraGUI" where
  "update_input_y y_pos g =
     g\<lparr>y_current_InputWidget_pixels := y_pos,
       y_current_InputWidget_meter := y_pos * u_pixel_size_y g\<rparr>"

definition update_from_roi_xy :: "CameraGUI \<Rightarrow> error + CameraGUI" where
  "update_from_roi_xy g =
     (let roi = roi_xy g;
          h_pos = fst (roi_pos roi) + 0.5 * fst (roi_size roi);
          v_pos = snd (roi_pos roi) + 0.5 * snd (roi_size roi)
      in update_intensity (update_input_y v_pos (update_input_x h_pos g)))"

text \<open>
  \<open>CrossROI.regionUpdateInfo\<close>: \<open>sigUserRegionUpdate\<close> is connected to
  \<open>update_from_roi_xy\<close>; nothing is connected to \<open>sigMachineRegionUpdate\<close>.
\<close>

definition regionUpdateInfo :: "CameraGUI \<Rightarrow> error + CameraGUI" where
  "regionUpdateInfo g = (if userDrag (roi_xy g) then update_from_roi_xy g else Inr g)"

text \<open>
  The slots of \<open>sigRegionChanged\<close> in the order they were connected:
  \<open>regionUpdateInfo\<close> (in \<open>CrossROI.__init__\<close>), then \<open>hline_xy.adjust\<close> and
  \<open>vline_xy.adjust\<close> (in \<open>createCrosshair\<close>).
\<close>

definition sigRegionChanged :: "CameraGUI \<Rightarrow> error + CameraGUI" where
  "sigRegionChanged g =
     (case regionUpdateInfo g of
        Inl e \<Rightarrow> Inl e
      | Inr g1 \<Rightarrow>
          (let g2 = g1\<lparr>hline_xy := adjust (hline_xy g1) (roi_xy g1)\<rparr>
           in Inr (g2\<lparr>vline_xy := adjust (vline_xy g2) (roi_xy g2)\<rparr>)))"

text \<open>
  \<open>CrossROI.setPos(pos)\<close>, with \<open>update=True\<close> and \<open>finish=False\<close>: pyqtgraph stores the
  position and emits \<open>sigRegionChanged\<close> when the state differs from the last one.
\<close>

definition setPos :: "real \<times> real \<Rightarrow> CameraGUI \<Rightarrow> error + CameraGUI" where
  "setPos p g =
     (let g1 = g\<lparr>roi_xy := (roi_xy g)\<lparr>roi_pos := p\<rparr>\<rparr>
      in if p \<noteq> roi_pos (roi_xy g) then sigRegionChanged g1 else Inr g1)"

definition update_roi_xy :: "real option \<Rightarrow> real option \<Rightarrow> CameraGUI \<Rightarrow> error + CameraGUI" where
  "update_roi_xy h v g =
     (let roi_h_view = fst (roi_pos (roi_xy g));
          roi_v_view = snd (roi_pos (roi_xy g));
          roi_h_view = (case h of None \<Rightarrow> roi_h_view
                        | Some x \<Rightarrow> x - fst (roi_size (roi_xy g)) * 0.5);
          roi_v_view = (case v of None \<Rightarrow> roi_v_view
                        | Some y \<Rightarrow> y - snd (roi_size (roi_xy g)) * 0.5)
      in case setPos (roi_h_view, roi_v_view) g of
           Inl e \<Rightarrow> Inl e
         | Inr g1 \<Rightarrow> update_intensity g1)"

definition roi_xy_bounds_check :: "CameraGUI \<Rightarrow> error + CameraGUI" where
  "roi_xy_bounds_check g =
     (let roi = roi_xy g;
          h_pos = fst (roi_pos roi) + 0.5 * fst (roi_size roi);
          v_pos = snd (roi_pos roi) + 0.5 * snd (roi_size roi);
          new_h_pos = h_pos;
          new_v_pos = v_pos;
          max_h_pos = real (fst (u_image_size g));
          max_v_pos = real (snd (u_image_size g));
          new_h_pos = (if h_pos > max_h_pos then max_h_pos else new_h_pos);
          new_h_pos = (if h_pos < 0 then 0 else new_h_pos);
          new_v_pos = (if v_pos > max_v_pos then max_v_pos else new_v_pos);
          new_v_pos = (if v_pos < 0 then 0 else new_v_pos)
      in update_roi_xy (Some new_h_pos) (Some new_v_pos) g)"

text \<open>
  The slots of \<open>sigRegionChangeFinished\<close> in the order they were connected:
  \<open>stopUserDrag\<close>, then \<open>roi_xy_bounds_check\<close>.
\<close>

definition sigRegionChangeFinished :: "CameraGUI \<Rightarrow> error + CameraGUI" where
  "sigRegionChangeFinished g =
     roi_xy_bounds_check (g\<lparr>roi_xy := (roi_xy g)\<lparr>userDrag := False\<rparr>\<rparr>)"

text \<open>
  \<open>CrossROI.setSize(size)\<close>, with \<open>update=True\<close> and \<open>finish=True\<close>: as \<open>setPos\<close>, and
  \<open>sigRegionChangeFinished\<close> is emitted afterwards.
\<close>

definition setSize :: "real \<times> real \<Rightarrow> CameraGUI \<Rightarrow> error + CameraGUI" where
  "setSize s g =
     (let g1 = g\<lparr>roi_xy := (roi_xy g)\<lparr>roi_size := s\<rparr>\<rparr>
      in case (if s \<noteq> roi_size (roi_xy g) then sigRegionChanged g1 else Inr g1) of
           Inl e \<Rightarrow> Inl e
         | Inr g2 \<Rightarrow> sigRegionChangeFinished g2)"





definition update_from_input_xy_size :: "CameraGUI \<Rightarrow> error + CameraGUI" where
  "update_from_input_xy_size g =
     (let x_size = cursor_x_size_input g;
          y_size = cursor_y_size_input g
      in case setSize (x_size, y_size) g of
           Inl e \<Rightarrow> Inl e
         | Inr g1 \<Rightarrow> update_intensity g1)"

text \<open>
  \<open>createCrosshair\<close>, from the configured pixel sizes and the current image: the region
  of interest at (5, 5) with size (1, 1), both lines through its centre, and the spin
  boxes showing its origin and size. Its guard \<open>self._image == None\<close> never holds:
  \<open>on_activate\<close> assigns the image item first.
\<close>

definition createCrosshair :: "real \<Rightarrow> real \<Rightarrow> real list list \<Rightarrow> nat \<times> nat \<Rightarrow> CameraGUI" where
  "createCrosshair psx psy img isize =
     (let roi = \<lparr>roi_pos = (5, 5), roi_size = (1, 1), userDrag = False\<rparr>
      in \<lparr>roi_xy = roi,
          hline_xy = \<lparr>angle = 0, line_value = snd (roi_pos roi) + snd (roi_size roi) * 0.5\<rparr>,
          vline_xy = \<lparr>angle = 90, line_value = fst (roi_pos roi) + fst (roi_size roi) * 0.5\<rparr>,
          u_pixel_size_x = psx, u_pixel_size_y = psy,
          u_raw_data_image = img, u_image_size = isize,
          x_current_InputWidget_pixels = fst (roi_pos roi),
          y_current_InputWidget_pixels = snd (roi_pos roi),
          x_current_InputWidget_meter = fst (roi_pos roi) * psx,
          y_current_InputWidget_meter = snd (roi_pos roi) * psy,
          cursor_x_size_input = fst (roi_size roi),
          cursor_y_size_input = snd (roi_size roi),
          intensity_current = None\<rparr>)"

text \<open>The class defaults: \<open>_raw_data_image = np.eye(1000)\<close> and \<open>_image_size = (1000, 1000)\<close>.\<close>

definition eye :: "nat \<Rightarrow> real list list" where
  "eye n = map (\<lambda>v. map (\<lambda>h. if h = v then 1 else 0) [0..<n]) [0..<n]"

section \<open>Notions used in the statements\<close>

text \<open>A list of \<open>H\<close> rows of \<open>W\<close> entries each, as a two-dimensional numpy array is.\<close>

definition rectangular :: "real list list \<Rightarrow> nat \<Rightarrow> nat \<Rightarrow> bool" where
  "rectangular msk H W = (length msk = H \<and> (\<forall>i<H. length (msk ! i) = W))"

text \<open>
  The panel states on which the intensity update cannot raise: the region of interest has
  a non-negative size and the image is a non-empty rectangle of the recorded size.
\<close>

definition well_formed :: "CameraGUI \<Rightarrow> bool" where
  "well_formed g =
     (0 \<le> fst (roi_size (roi_xy g)) \<and> 0 \<le> snd (roi_size (roi_xy g)) \<and>
      0 < fst (u_image_size g) \<and> 0 < snd (u_image_size g) \<and>
      rectangular (u_raw_data_image g) (snd (u_image_size g)) (fst (u_image_size g)))"

text \<open>
  What the slots of \<open>sigRegionChanged\<close> leave behind: during a user drag the position
  boxes show the centre and the intensity is recomputed (to \<open>i\<close>); both lines are adjusted.
\<close>

definition after_region_change :: "CameraGUI \<Rightarrow> real option \<Rightarrow> CameraGUI" where
  "after_region_change g i =
     (let g1 = (if userDrag (roi_xy g)
                then (update_input_y (snd (roi_pos (roi_xy g)) + 0.5 * snd (roi_size (roi_xy g)))
                       (update_input_x (fst (roi_pos (roi_xy g)) + 0.5 * fst (roi_size (roi_xy g))) g))
                     \<lparr>intensity_current := i\<rparr>
                else g)
      in g1\<lparr>hline_xy := adjust (hline_xy g) (roi_xy g), vline_xy := adjust (vline_xy g) (roi_xy g)\<rparr>)"

text \<open>The panel with the origin of the region of interest replaced.\<close>

definition moved :: "real \<times> real \<Rightarrow> CameraGUI \<Rightarrow> CameraGUI" where
  "moved p g = g\<lparr>roi_xy := (roi_xy g)\<lparr>roi_pos := p\<rparr>\<rparr>"

text \<open>The origin that \<open>update_roi_xy\<close> passes to \<open>setPos\<close>.\<close>

definition roi_target :: "real option \<Rightarrow> real option \<Rightarrow> CameraGUI \<Rightarrow> real \<times> real" where
  "roi_target h v g =
     ((case h of None \<Rightarrow> fst (roi_pos (roi_xy g)) | Some x \<Rightarrow> x - fst (roi_size (roi_xy g)) * 0.5),
      (case v of None \<Rightarrow> snd (roi_pos (roi_xy g)) | Some y \<Rightarrow> y - snd (roi_size (roi_xy g)) * 0.5))"

text \<open>The centre of the region of interest: origin plus half the size, per axis.\<close>

definition roi_centre :: "CrossROI \<Rightarrow> real \<times> real" where
  "roi_centre roi =
     (fst (roi_pos roi) + fst (roi_size roi) / 2, snd (roi_pos roi) + snd (roi_size roi) / 2)"

text \<open>
  A concrete panel: the defaults (pixel sizes 1, the 1000 by 1000 identity image) with the
  region of interest at a given origin and size, no drag in progress.
\<close>

definition dragged_gui :: "real \<times> real \<Rightarrow> real \<times> real \<Rightarrow> CameraGUI" where
  "dragged_gui p s =
     (createCrosshair 1 1 (eye 1000) (1000, 1000))
       \<lparr>roi_xy := \<lparr>roi_pos = p, roi_size = s, userDrag = False\<rparr>\<rparr>"

text \<open>Both lines keep their angles and pass through the centre of the region of interest.\<close>

definition crosshair_centred :: "CameraGUI \<Rightarrow> bool" where
  "crosshair_centred g =
     (angle (hline_xy g) = 0 \<and> angle (vline_xy g) = 90 \<and>
      line_value (hline_xy g) = snd (roi_pos (roi_xy g)) + snd (roi_size (roi_xy g)) * 0.5 \<and>
      line_value (vline_xy g) = fst (roi_pos (roi_xy g)) + fst (roi_size (roi_xy g)) * 0.5)"

text \<open>The panel with the size of the region of interest replaced.\<close>

definition resized :: "real \<times> real \<Rightarrow> CameraGUI \<Rightarrow> CameraGUI" where
  "resized s g = g\<lparr>roi_xy := (roi_xy g)\<lparr>roi_size := s\<rparr>\<rparr>"


section \<open>The joystick poll loop\<close>

text \<open>A tick on a module that was handed a table of bound signals from outside.\<close>

lemma loop_buttons_trace:
  assumes "set bs \<subseteq> dom st" "set bs \<subseteq> dom old"
    and "\<forall>b\<in>set bs. has_signals d {''pressed'', ''value_change''} b"
  shows "loop_buttons (Some d) st (Some old) bs (ch, tr) =
           Inr (ch \<or> (\<exists>b\<in>set bs. st b \<noteq> old b), tr @ concat (map (button_emissions st old) bs))"
  using assms
proof (induction bs arbitrary: ch tr)
  case Nil
  then show ?case by simp
next
  case (Cons b bs)
  from Cons.prems obtain x y sigs where x: "st b = Some x" and y: "old b = Some y"
    and ks: "d b = Some sigs" "sigs ''value_change'' = Some Signal_bound"
      "sigs ''pressed'' = Some Signal_bound"
    by (auto simp: has_signals_def split: option.splits)
  have rest: "set bs \<subseteq> dom st" "set bs \<subseteq> dom old"
    "\<forall>b\<in>set bs. has_signals d {''pressed'', ''value_change''} b"
    using Cons.prems by auto
  show ?case
    using x y ks Cons.IH [OF rest]
    by (auto simp: getitem_def getitem_opt_def emit_def button_emissions_def)
qed

lemma loop_axes_trace:
  assumes "set as \<subseteq> dom st" "set as \<subseteq> dom old"
    and "\<forall>a\<in>set as. has_signals d {''value_change''} a"
  shows "loop_axes (Some d) st (Some old) as (ch, tr) =
           Inr (ch \<or> (\<exists>a\<in>set as. st a \<noteq> old a), tr @ concat (map (axis_emissions st old) as))"
  using assms
proof (induction as arbitrary: ch tr)
  case Nil
  then show ?case by simp
next
  case (Cons a as)
  from Cons.prems obtain x y sigs where x: "st a = Some x" and y: "old a = Some y"
    and ks: "d a = Some sigs" "sigs ''value_change'' = Some Signal_bound"
    by (auto simp: has_signals_def split: option.splits)
  have rest: "set as \<subseteq> dom st" "set as \<subseteq> dom old"
    "\<forall>a\<in>set as. has_signals d {''value_change''} a"
    using Cons.prems by auto
  show ?case
    using x y ks Cons.IH [OF rest]
    by (auto simp: getitem_def getitem_opt_def emit_def axis_emissions_def)
qed

lemma loop_result:
  assumes en: "enabled obj" and hwp: "u_hardware obj" and t: "timer obj = Some t"
    and f: "u_fps obj \<noteq> 0" and old: "u_last_state obj = Some old"
    and ev: "u_events obj = Some d"
    and keys: "set (u_button_list @ u_axis_list) \<subseteq> dom hw \<inter> dom old"
    and sb: "\<forall>b\<in>set u_button_list. has_signals d {''pressed'', ''value_change''} b"
    and sa: "\<forall>a\<in>set u_axis_list. has_signals d {''value_change''} a"
  shows "loop hw obj =
           Inr (obj\<lparr>timer := Some (t\<lparr>interval := Some (1000 * 1 / u_fps obj)\<rparr>)\<rparr>,
                expected_trace hw old)"
proof -
  have b: "set u_button_list \<subseteq> dom hw" "set u_button_list \<subseteq> dom old"
    and a: "set u_axis_list \<subseteq> dom hw" "set u_axis_list \<subseteq> dom old"
    using keys by auto
  have 1: "loop_buttons (Some d) hw (Some old) u_button_list (False, []) =
             Inr (\<exists>b\<in>set u_button_list. hw b \<noteq> old b,
                  concat (map (button_emissions hw old) u_button_list))"
    using loop_buttons_trace [OF b sb, of False "[]"] by simp
  show ?thesis
    unfolding loop_def Let_def
    using en hwp t f old ev 1
    by (simp add: loop_axes_trace [OF a sa] timer_start_def expected_trace_def bex_Un)
qed

lemma idle_keys: "set (u_button_list @ u_axis_list) \<subseteq> dom idle_state"
  by (simp add: idle_state_def dom_map_of_conv_image_fst image_image)

lemma held_keys: "set (u_button_list @ u_axis_list) \<subseteq> dom held_state"
  using idle_keys by (auto simp: held_state_def)

lemma all_events_buttons:
  "\<forall>b\<in>set u_button_list. has_signals all_events {''pressed'', ''value_change''} b"
  by (simp add: all_events_def u_button_list_def u_axis_list_def has_signals_def)

lemma all_events_axes:
  "\<forall>a\<in>set u_axis_list. has_signals all_events {''value_change''} a"
  by (simp add: all_events_def u_button_list_def u_axis_list_def has_signals_def)

lemma held_left_up: "held_state ''left_up'' = Some 1" "idle_state ''left_up'' = Some 0"
  by (simp_all add: held_state_def idle_state_def u_button_list_def)

lemma held_differs: "held_state c \<noteq> idle_state c \<longleftrightarrow> c = ''left_up''"
  using held_left_up(2) by (simp add: held_state_def)

lemma button_emissions_held:
  "button_emissions held_state idle_state b =
     (if b = ''left_up'' then [Control b ''value_change'', Control b ''pressed''] else [])"
  using held_left_up(1) by (simp add: button_emissions_def held_differs)

lemma axis_emissions_held:
  "axis_emissions held_state idle_state a =
     (if a = ''left_up'' then [Control a ''value_change''] else [])"
  by (simp add: axis_emissions_def held_differs)

lemma expected_trace_press:
  "expected_trace held_state idle_state =
     [Control ''left_up'' ''value_change'', Control ''left_up'' ''pressed'', sig_controller_changed]"
  by (simp add: expected_trace_def button_emissions_held axis_emissions_held held_differs
        u_button_list_def u_axis_list_def)

lemma expected_trace_same: "expected_trace st st = []"
  by (simp add: expected_trace_def button_emissions_def axis_emissions_def)

lemma loop_keeps_last_state:
  "loop hw obj = Inr (obj', tr) \<Longrightarrow> u_last_state obj' = u_last_state obj"
  unfolding loop_def Let_def timer_start_def
  by (auto split: if_splits sum.splits option.splits prod.splits)

lemma loop_disabled:
  "\<not> enabled obj \<Longrightarrow> loop hw obj = (if u_hardware obj then Inr (obj, []) else Inl AttributeError)"
  unfolding loop_def Let_def by simp

lemma polling_obj_armed:
  "(polling_obj old True iv)\<lparr>timer := Some (\<lparr>singleShot = True, timeout_loop = True, interval = iv\<rparr>
       \<lparr>interval := Some (1000 * 1 / u_fps (polling_obj old True iv))\<rparr>)\<rparr> =
   polling_obj old True (Some 10)"
  by (simp add: polling_obj_def)

lemma loop_polling:
  "set (u_button_list @ u_axis_list) \<subseteq> dom hw \<inter> dom old \<Longrightarrow>
   loop hw (polling_obj old True iv) = Inr (polling_obj old True (Some 10), expected_trace hw old)"
  using loop_result [of "polling_obj old True iv"
      "\<lparr>singleShot = True, timeout_loop = True, interval = iv\<rparr>" old all_events hw]
    all_events_buttons all_events_axes
  by (simp add: polling_obj_armed) (simp add: polling_obj_def)

text \<open>
  Ticks on a module whose \<open>_events\<close> is missing or holds only unbound signals: nothing is
  ever emitted, and a tick that sees a change raises.
\<close>

lemma emit_silent: "silent ev \<Longrightarrow> \<exists>e. emit ev c k tr = Inl e"
  unfolding silent_def emit_def
  by (cases ev) (auto split: option.splits signal.splits)

lemma loop_buttons_silent:
  assumes "silent ev" and "loop_buttons ev st old bs (ch, tr) = Inr (ch', tr')"
  shows "ch' = ch \<and> tr' = tr"
  using assms(2)
proof (induction bs arbitrary: ch tr)
  case Nil
  then show ?case by simp
next
  case (Cons b bs)
  obtain e where e: "emit ev b ''value_change'' tr = Inl e"
    using emit_silent [OF assms(1)] by blast
  from Cons.prems e have "loop_buttons ev st old bs (ch, tr) = Inr (ch', tr')"
    by (auto split: sum.splits if_splits)
  then show ?case by (rule Cons.IH)
qed

lemma loop_axes_silent:
  assumes "silent ev" and "loop_axes ev st old as (ch, tr) = Inr (ch', tr')"
  shows "ch' = ch \<and> tr' = tr"
  using assms(2)
proof (induction as arbitrary: ch tr)
  case Nil
  then show ?case by simp
next
  case (Cons a as)
  obtain e where e: "emit ev a ''value_change'' tr = Inl e"
    using emit_silent [OF assms(1)] by blast
  from Cons.prems e have "loop_axes ev st old as (ch, tr) = Inr (ch', tr')"
    by (auto split: sum.splits if_splits)
  then show ?case by (rule Cons.IH)
qed

lemma loop_silent:
  assumes "silent (u_events obj)" and "loop hw obj = Inr (obj', tr)"
  shows "tr = []"
proof (cases "enabled obj")
  case False
  then show ?thesis using assms(2) by (auto simp: loop_def Let_def split: if_splits)
next
  case True
  from assms(2) True obtain ch1 tr1 ch2 tr2 where
    b: "loop_buttons (u_events obj) hw (u_last_state obj) u_button_list (False, []) = Inr (ch1, tr1)"
    and a: "loop_axes (u_events obj) hw (u_last_state obj) u_axis_list (ch1, tr1) = Inr (ch2, tr2)"
    and tr: "tr = (if ch2 then tr2 @ [sig_controller_changed] else tr2)"
    by (auto simp: loop_def Let_def split: if_splits sum.splits prod.splits)
  from loop_buttons_silent [OF assms(1) b] have "ch1 = False \<and> tr1 = []" by simp
  with loop_axes_silent [OF assms(1) a] have "ch2 = False \<and> tr2 = []" by simp
  then show ?thesis using tr by simp
qed

text \<open>
  A tick that sees no change needs no signal: it returns with an empty trace and the timer
  armed at 1000/\<open>_fps\<close>, whatever \<open>_events\<close> is.
\<close>

lemma loop_buttons_same:
  assumes "set bs \<subseteq> dom st" "set bs \<subseteq> dom old" "\<forall>b\<in>set bs. st b = old b"
  shows "loop_buttons ev st (Some old) bs acc = Inr acc"
  using assms
proof (induction bs)
  case Nil
  then show ?case by simp
next
  case (Cons b bs)
  obtain ch tr where acc: "acc = (ch, tr)" by (cases acc)
  from Cons.prems obtain x where "st b = Some x" "old b = Some x" by auto
  then show ?case using Cons acc by (simp add: getitem_def getitem_opt_def)
qed

lemma loop_axes_same:
  assumes "set as \<subseteq> dom st" "set as \<subseteq> dom old" "\<forall>a\<in>set as. st a = old a"
  shows "loop_axes ev st (Some old) as acc = Inr acc"
  using assms
proof (induction as)
  case Nil
  then show ?case by simp
next
  case (Cons a as)
  obtain ch tr where acc: "acc = (ch, tr)" by (cases acc)
  from Cons.prems obtain x where "st a = Some x" "old a = Some x" by auto
  then show ?case using Cons acc by (simp add: getitem_def getitem_opt_def)
qed

lemma loop_rearms_when_unchanged:
  assumes "enabled obj" and "u_hardware obj" and "timer obj = Some t" and "u_fps obj \<noteq> 0"
    and "u_last_state obj = Some old"
    and keys: "set (u_button_list @ u_axis_list) \<subseteq> dom hw \<inter> dom old"
    and same: "\<forall>c\<in>set (u_button_list @ u_axis_list). hw c = old c"
  shows "loop hw obj = Inr (obj\<lparr>timer := Some (t\<lparr>interval := Some (1000 * 1 / u_fps obj)\<rparr>)\<rparr>, [])"
proof -
  have b: "loop_buttons (u_events obj) hw (Some old) u_button_list (False, []) = Inr (False, [])"
    using keys same by (intro loop_buttons_same) auto
  have a: "loop_axes (u_events obj) hw (Some old) u_axis_list (False, []) = Inr (False, [])"
    using keys same by (intro loop_axes_same) auto
  show ?thesis
    using assms(1-5) b a by (simp add: loop_def Let_def timer_start_def)
qed

lemma loop_buttons_silent_differs:
  assumes "silent ev" "set bs \<subseteq> dom st" "set bs \<subseteq> dom old" "\<exists>b\<in>set bs. st b \<noteq> old b"
  shows "\<exists>e. loop_buttons ev st (Some old) bs (ch, tr) = Inl e"
  using assms(2-)
proof (induction bs arbitrary: ch tr)
  case Nil
  then show ?case by simp
next
  case (Cons b bs)
  from Cons.prems obtain x y where x: "st b = Some x" and y: "old b = Some y" by auto
  obtain e where e: "emit ev b ''value_change'' tr = Inl e"
    using emit_silent [OF assms(1)] by blast
  show ?case
  proof (cases "x = y")
    case True
    then have "\<exists>b\<in>set bs. st b \<noteq> old b" using Cons.prems(3) x y by auto
    from Cons.IH [OF _ _ this] Cons.prems(1,2) True x y show ?thesis
      by (simp add: getitem_def getitem_opt_def)
  next
    case False
    then show ?thesis using x y e by (simp add: getitem_def getitem_opt_def)
  qed
qed

lemma loop_axes_silent_differs:
  assumes "silent ev" "set as \<subseteq> dom st" "set as \<subseteq> dom old" "\<exists>a\<in>set as. st a \<noteq> old a"
  shows "\<exists>e. loop_axes ev st (Some old) as (ch, tr) = Inl e"
  using assms(2-)
proof (induction as arbitrary: ch tr)
  case Nil
  then show ?case by simp
next
  case (Cons a as)
  from Cons.prems obtain x y where x: "st a = Some x" and y: "old a = Some y" by auto
  obtain e where e: "emit ev a ''value_change'' tr = Inl e"
    using emit_silent [OF assms(1)] by blast
  show ?case
  proof (cases "x = y")
    case True
    then have "\<exists>a\<in>set as. st a \<noteq> old a" using Cons.prems(3) x y by auto
    from Cons.IH [OF _ _ this] Cons.prems(1,2) True x y show ?thesis
      by (simp add: getitem_def getitem_opt_def)
  next
    case False
    then show ?thesis using x y e by (simp add: getitem_def getitem_opt_def)
  qed
qed

lemma loop_raises_on_change:
  assumes s: "silent (u_events obj)" and en: "enabled obj" and hwp: "u_hardware obj"
    and old: "u_last_state obj = Some old"
    and keys: "set (u_button_list @ u_axis_list) \<subseteq> dom hw \<inter> dom old"
    and diff: "\<exists>c\<in>set (u_button_list @ u_axis_list). hw c \<noteq> old c"
  shows "\<exists>e. loop hw obj = Inl e"
proof (cases "\<exists>b\<in>set u_button_list. hw b \<noteq> old b")
  case True
  have "\<exists>e. loop_buttons (u_events obj) hw (Some old) u_button_list (False, []) = Inl e"
    using keys True by (intro loop_buttons_silent_differs [OF s]) auto
  then show ?thesis using en hwp old by (auto simp: loop_def Let_def)
next
  case False
  then have b: "loop_buttons (u_events obj) hw (Some old) u_button_list (False, []) = Inr (False, [])"
    using keys by (intro loop_buttons_same) auto
  have "\<exists>a\<in>set u_axis_list. hw a \<noteq> old a" using diff False by auto
  then have "\<exists>e. loop_axes (u_events obj) hw (Some old) u_axis_list (False, []) = Inl e"
    using keys by (intro loop_axes_silent_differs [OF s]) auto
  then show ?thesis using en hwp old b by (auto simp: loop_def Let_def)
qed

lemma loop_raises_without_snapshot:
  assumes "enabled obj" and "u_last_state obj = None"
  shows "\<exists>e. loop hw obj = Inl e"
proof -
  have "\<exists>e. loop_buttons (u_events obj) hw None u_button_list (False, []) = Inl e"
    by (simp add: u_button_list_def getitem_def getitem_opt_def split: option.splits)
  then show ?thesis using assms by (auto simp: loop_def Let_def)
qed

text \<open>\<open>on_activate\<close> with \<open>events\<close> still \<open>None\<close>, and with \<open>events\<close> a dict.\<close>

lemma register_all_None:
  "events obj = None \<Longrightarrow> names \<noteq> [] \<Longrightarrow> register_all ks names obj = Inl TypeError"
  by (cases names) (simp_all add: events_setitem_def)

lemma on_activate_events_None:
  "events obj = None \<Longrightarrow> on_activate hw obj = Inl TypeError"
  unfolding on_activate_def Let_def
  by (subst register_all_None) (simp_all add: u_button_list_def)

lemma register_all_Some:
  "events obj = Some d \<Longrightarrow>
   register_all ks names obj = Inr (obj\<lparr>events := Some (fold (\<lambda>n d. d(n \<mapsto> ks)) names d)\<rparr>)"
  by (induction names arbitrary: obj d) (simp_all add: events_setitem_def)

lemma on_activate_with_dict:
  "on_activate idle_state ((JoystickLogic_init 100)\<lparr>events := Some Map.empty\<rparr>) = Inr activated_obj"
proof -
  let ?t = "\<lparr>singleShot = True, timeout_loop = True, interval = None\<rparr>"
  let ?obj1 = "(JoystickLogic_init 100)\<lparr>events := Some Map.empty, u_hardware := True, timer := Some ?t\<rparr>"
  let ?bs = "[''pressed'' \<mapsto> Signal_unbound, ''value_change'' \<mapsto> Signal_unbound]"
  let ?as = "[''value_change'' \<mapsto> Signal_unbound]"
  let ?d1 = "fold (\<lambda>n d. d(n \<mapsto> ?bs)) u_button_list Map.empty"
  have 1: "register_all ?bs u_button_list ?obj1 = Inr (?obj1\<lparr>events := Some ?d1\<rparr>)"
    by (rule register_all_Some) simp
  have 2: "register_all ?as u_axis_list (?obj1\<lparr>events := Some ?d1\<rparr>) =
             Inr (?obj1\<lparr>events := Some registered_events\<rparr>)"
    using register_all_Some [of "?obj1\<lparr>events := Some ?d1\<rparr>" ?d1 ?as u_axis_list]
    by (simp add: registered_events_def)
  show ?thesis
    unfolding on_activate_def Let_def
    using 1 2
    by (simp add: start_loop_def timer_start_def activated_obj_def JoystickLogic_init_def)
qed

lemma fold_register_unbound:
  assumes "\<forall>k. ks k \<noteq> Some Signal_bound"
    and "\<forall>c sigs k. d c = Some sigs \<longrightarrow> sigs k \<noteq> Some Signal_bound"
  shows "\<forall>c sigs k. fold (\<lambda>n d. d(n \<mapsto> ks)) names d c = Some sigs \<longrightarrow> sigs k \<noteq> Some Signal_bound"
  using assms(2)
proof (induction names arbitrary: d)
  case Nil
  then show ?case by simp
next
  case (Cons a names)
  have "\<forall>c sigs k. (d(a \<mapsto> ks)) c = Some sigs \<longrightarrow> sigs k \<noteq> Some Signal_bound"
    using Cons.prems assms(1) by (simp add: fun_upd_def)
  from Cons.IH [OF this] show ?case by simp
qed

lemma silent_registered_events: "silent (Some registered_events)"
proof -
  let ?bs = "[''pressed'' \<mapsto> Signal_unbound, ''value_change'' \<mapsto> Signal_unbound]"
  let ?as = "[''value_change'' \<mapsto> Signal_unbound]"
  have b: "\<forall>k. ?bs k \<noteq> Some Signal_bound" and a: "\<forall>k. ?as k \<noteq> Some Signal_bound"
    by simp_all
  have e: "\<forall>c sigs k. (Map.empty :: event_table) c = Some sigs \<longrightarrow> sigs k \<noteq> Some Signal_bound"
    by simp
  have "\<forall>c sigs k. registered_events c = Some sigs \<longrightarrow> sigs k \<noteq> Some Signal_bound"
    unfolding registered_events_def
    by (rule fold_register_unbound [OF a fold_register_unbound [OF b e]])
  then show ?thesis by (simp add: silent_def)
qed

lemma loop_activated_raises: "loop held_state activated_obj = Inl AttributeError"
  using held_left_up
  by (simp add: loop_def Let_def activated_obj_def u_button_list_def getitem_def getitem_opt_def
        emit_def)

lemma loop_activated_raises_with_registered_table:
  "\<exists>e. loop held_state (activated_obj\<lparr>u_events := events activated_obj\<rparr>) = Inl e"
proof (rule loop_raises_on_change)
  show "silent (u_events (activated_obj\<lparr>u_events := events activated_obj\<rparr>))"
    using silent_registered_events by (simp add: activated_obj_def)
  show "enabled (activated_obj\<lparr>u_events := events activated_obj\<rparr>)"
    "u_hardware (activated_obj\<lparr>u_events := events activated_obj\<rparr>)"
    "u_last_state (activated_obj\<lparr>u_events := events activated_obj\<rparr>) = Some idle_state"
    by (simp_all add: activated_obj_def)
  show "set (u_button_list @ u_axis_list) \<subseteq> dom held_state \<inter> dom idle_state"
    using idle_keys held_keys by blast
  show "\<exists>c\<in>set (u_button_list @ u_axis_list). held_state c \<noteq> idle_state c"
    by (simp add: held_differs u_button_list_def)
qed

text \<open>
  On every object the class can build, \<open>events\<close> and \<open>_events\<close> are missing and no
  snapshot is stored; a tick on it returns only when the module is disabled, emitting
  nothing and leaving the object, and so the timer, as it was.
\<close>

lemma reachable_fields:
  "reachable obj \<Longrightarrow> events obj = None \<and> u_events obj = None \<and> u_last_state obj = None"
proof (induction rule: reachable.induct)
  case (constructed max_fps)
  then show ?case by (simp add: JoystickLogic_init_def)
next
  case (fps_called obj v)
  then show ?case by (cases v) (simp_all add: fps_def Let_def)
next
  case (start_loop_returned obj obj')
  then show ?case
    by (auto simp: start_loop_def timer_start_def split: option.splits if_splits)
next
  case (start_loop_raised obj)
  then show ?case by simp
next
  case (stop_loop_returned obj obj')
  then show ?case by (auto simp: stop_loop_def split: option.splits)
next
  case (loop_returned obj hw obj' tr)
  then show ?case
    by (auto simp: loop_def Let_def timer_start_def
        split: if_splits sum.splits prod.splits option.splits)
next
  case (on_activate_returned obj hw obj')
  then show ?case using on_activate_events_None [of obj hw] by simp
next
  case (on_activate_raised_registering obj)
  then show ?case by simp
next
  case (on_activate_raised_starting obj obj2 obj3 hw)
  then show ?case
    using register_all_None [of "obj\<lparr>u_hardware := True,
        timer := Some \<lparr>singleShot = True, timeout_loop = True, interval = None\<rparr>\<rparr>" u_button_list]
    by (simp add: u_button_list_def)
qed

lemma reachable_loop:
  assumes "reachable obj" and "loop hw obj = Inr (obj', tr)"
  shows "tr = [] \<and> \<not> enabled obj \<and> obj' = obj"
proof -
  have n: "u_last_state obj = None" using reachable_fields [OF assms(1)] by simp
  have "\<not> enabled obj"
    using loop_raises_without_snapshot [OF _ n, of hw] assms(2) by auto
  then show ?thesis using assms(2) by (auto simp: loop_disabled split: if_splits)
qed

lemma reachable_failed_activation_obj: "reachable failed_activation_obj"
  unfolding failed_activation_obj_def
  by (intro reachable.on_activate_raised_registering reachable.constructed)

lemma start_failed_activation_obj: "start_loop failed_activation_obj = Inr started_obj"
  by (simp add: start_loop_def timer_start_def failed_activation_obj_def started_obj_def
        JoystickLogic_init_def)

lemma reachable_started_obj: "reachable started_obj"
  using reachable_failed_activation_obj start_failed_activation_obj
  by (rule reachable.start_loop_returned)

text \<open>
  Claim C1 at a concrete input. Take a module whose \<open>events\<close> is an empty dict, so that
  \<open>on_activate\<close> completes: it stores the idle snapshot and fills \<open>events\<close>, not
  \<open>_events\<close>. In the next tick the hardware reports \<open>left_up\<close> pressed: the value
  differs and is truthy, and the tick raises AttributeError at \<open>self._events\<close> instead of
  emitting \<open>value_change\<close>, \<open>pressed\<close> and \<open>sig_controller_changed\<close>.
\<close>

theorem loop_raises_on_press:
  "on_activate idle_state ((JoystickLogic_init 100)\<lparr>events := Some Map.empty\<rparr>) = Inr activated_obj \<and>
   get_last_state activated_obj = Some idle_state \<and>
   idle_state ''left_up'' = Some 0 \<and> held_state ''left_up'' = Some 1 \<and>
   loop held_state activated_obj = Inl AttributeError"
  by (simp add: on_activate_with_dict loop_activated_raises held_left_up get_last_state_def)
     (simp add: activated_obj_def)

text \<open>
  Claim C2 at a concrete input. The stored state is the idle snapshot and the hardware
  reports \<open>left_up\<close> pressed; the tick reports the change, and afterwards
  \<open>get_last_state\<close> still returns the idle snapshot, not the state just read.
\<close>

theorem loop_last_state_stale:
  "loop held_state (polling_obj idle_state True None) =
     Inr (polling_obj idle_state True (Some 10),
          [Control ''left_up'' ''value_change'', Control ''left_up'' ''pressed'', sig_controller_changed]) \<and>
   get_last_state (polling_obj idle_state True (Some 10)) = Some idle_state \<and>
   Some idle_state \<noteq> Some held_state"
proof -
  have "idle_state ''left_up'' \<noteq> held_state ''left_up''"
    by (simp add: held_left_up)
  then have "idle_state \<noteq> held_state" by metis
  moreover have "loop held_state (polling_obj idle_state True None) =
      Inr (polling_obj idle_state True (Some 10), expected_trace held_state idle_state)"
    using loop_polling [of held_state idle_state None] held_keys idle_keys by simp
  ultimately show ?thesis
    by (simp add: expected_trace_press get_last_state_def) (simp add: polling_obj_def)
qed


text \<open>
  Claim C7. \<open>start_loop\<close> sets \<open>enabled\<close> and arms the timer; \<open>stop_loop\<close> stops the
  timer and clears \<open>enabled\<close>; and a tick of \<open>loop\<close> on a disabled module returns the
  object unchanged (so the timer is not armed again) with no signal emitted, or raises
  before emitting anything when no hardware is connected.
\<close>

theorem enabled_flag_controls_loop:
  "(timer obj = Some t \<and> u_fps obj \<noteq> 0 \<longrightarrow>
      start_loop obj =
        Inr (obj\<lparr>enabled := True, timer := Some (t\<lparr>interval := Some (1000 * 1 / u_fps obj)\<rparr>)\<rparr>)) \<and>
   (timer obj = Some t \<longrightarrow>
      stop_loop obj = Inr (obj\<lparr>timer := Some (t\<lparr>interval := None\<rparr>), enabled := False\<rparr>)) \<and>
   (\<not> enabled obj \<longrightarrow>
      loop hw obj = (if u_hardware obj then Inr (obj, []) else Inl AttributeError))"
  unfolding start_loop_def stop_loop_def timer_start_def loop_def Let_def by simp

text \<open>Claim C7 at a concrete object: start, stop, and a tick while disabled.\<close>

theorem enabled_flag_controls_loop_witness:
  "start_loop (polling_obj idle_state False None) = Inr (polling_obj idle_state True (Some 10)) \<and>
   stop_loop (polling_obj idle_state True (Some 10)) = Inr (polling_obj idle_state False None) \<and>
   loop held_state (polling_obj idle_state False None) = Inr (polling_obj idle_state False None, [])"
proof -
  let ?t = "\<lparr>singleShot = True, timeout_loop = True, interval = None\<rparr>"
  let ?t' = "\<lparr>singleShot = True, timeout_loop = True, interval = Some 10\<rparr>"
  have a: "start_loop (polling_obj idle_state False None) = Inr (polling_obj idle_state True (Some 10))"
    using enabled_flag_controls_loop [of "polling_obj idle_state False None" ?t held_state]
    by (simp add: polling_obj_def)
  have b: "stop_loop (polling_obj idle_state True (Some 10)) = Inr (polling_obj idle_state False None)"
    using enabled_flag_controls_loop [of "polling_obj idle_state True (Some 10)" ?t' held_state]
    by (simp add: polling_obj_def)
  have c: "loop held_state (polling_obj idle_state False None) = Inr (polling_obj idle_state False None, [])"
    using enabled_flag_controls_loop [of "polling_obj idle_state False None" ?t held_state]
    by (simp add: polling_obj_def)
  from a b c show ?thesis by simp
qed

text \<open>
  Claim C10 at a concrete input. On a freshly constructed module \<open>events\<close> is still the
  class default \<open>None\<close>, so the first \<open>self.events[button] = ...\<close> of \<open>on_activate\<close>
  raises TypeError: nothing is registered, no snapshot is recorded and the loop is not started.
\<close>

theorem on_activate_raises:
  "on_activate idle_state (JoystickLogic_init 100) = Inl TypeError"
  by (rule on_activate_events_None) (simp add: JoystickLogic_init_def)

section \<open>The camera panel\<close>

lemma py_index_in_range: "0 \<le> i \<Longrightarrow> i < int n \<Longrightarrow> py_index n i = Inr (nat i)"
  by (simp add: py_index_def)

lemma mask_setitem_in_range:
  assumes "rectangular msk H W" "0 \<le> v" "v < int H" "0 \<le> h" "h < int W"
  shows "mask_setitem msk v h = Inr (msk[nat v := (msk ! nat v)[nat h := 1]])"
  using assms by (simp add: mask_setitem_def py_index_in_range rectangular_def)

lemma rectangular_update:
  "rectangular msk H W \<Longrightarrow> rectangular (msk[i := (msk ! i)[j := x]]) H W"
  unfolding rectangular_def
proof (intro conjI allI impI)
  assume a: "length msk = H \<and> (\<forall>i<H. length (msk ! i) = W)"
  show "length (msk[i := (msk ! i)[j := x]]) = H" using a by simp
  fix k assume k: "k < H"
  show "length (msk[i := (msk ! i)[j := x]] ! k) = W"
    using a k by (cases "k = i") simp_all
qed

lemma fill_column_result:
  assumes "rectangular msk H W" "\<forall>v\<in>set vs. 0 \<le> v \<and> v < int H" "0 \<le> h" "h < int W"
  shows "\<exists>m. fill_column h vs msk = Inr m \<and> rectangular m H W \<and>
           (\<forall>i<H. \<forall>j<W. m ! i ! j = (if int j = h \<and> int i \<in> set vs then 1 else msk ! i ! j))"
  using assms
proof (induction vs arbitrary: msk)
  case Nil
  then show ?case by simp
next
  case (Cons v vs)
  let ?m1 = "msk[nat v := (msk ! nat v)[nat h := 1]]"
  have v: "0 \<le> v" "v < int H" using Cons.prems(2) by auto
  have step: "mask_setitem msk v h = Inr ?m1"
    using mask_setitem_in_range [OF Cons.prems(1) v Cons.prems(3,4)] .
  have r1: "rectangular ?m1 H W" using Cons.prems(1) by (rule rectangular_update)
  have vs: "\<forall>v\<in>set vs. 0 \<le> v \<and> v < int H" using Cons.prems(2) by simp
  from Cons.IH [OF r1 vs Cons.prems(3,4)]
  obtain m where m: "fill_column h vs ?m1 = Inr m" "rectangular m H W"
    and mv: "\<forall>i<H. \<forall>j<W. m ! i ! j = (if int j = h \<and> int i \<in> set vs then 1 else ?m1 ! i ! j)"
    by blast
  have old: "\<forall>i<H. \<forall>j<W. ?m1 ! i ! j = (if int j = h \<and> int i = v then 1 else msk ! i ! j)"
  proof (intro allI impI)
    fix i j assume i: "i < H" and j: "j < W"
    have len: "length msk = H" "length (msk ! i) = W" "length (msk ! nat v) = W"
      using Cons.prems(1) i v by (auto simp: rectangular_def)
    show "?m1 ! i ! j = (if int j = h \<and> int i = v then 1 else msk ! i ! j)"
      using i j len v Cons.prems(3,4)
      by (cases "i = nat v"; cases "j = nat h") (auto simp: nth_list_update)
  qed
  have "\<forall>i<H. \<forall>j<W. m ! i ! j = (if int j = h \<and> int i \<in> set (v # vs) then 1 else msk ! i ! j)"
    using mv old by auto
  then show ?case using step m by auto
qed

lemma fill_columns_result:
  assumes "rectangular msk H W" "\<forall>v\<in>set vs. 0 \<le> v \<and> v < int H" "\<forall>h\<in>set hs. 0 \<le> h \<and> h < int W"
  shows "\<exists>m. fill_columns hs vs msk = Inr m \<and> rectangular m H W \<and>
           (\<forall>i<H. \<forall>j<W. m ! i ! j = (if int j \<in> set hs \<and> int i \<in> set vs then 1 else msk ! i ! j))"
  using assms
proof (induction hs arbitrary: msk)
  case Nil
  then show ?case by simp
next
  case (Cons h hs)
  have h: "0 \<le> h" "h < int W" using Cons.prems(3) by auto
  from fill_column_result [OF Cons.prems(1,2) h]
  obtain m1 where m1: "fill_column h vs msk = Inr m1" "rectangular m1 H W"
    and v1: "\<forall>i<H. \<forall>j<W. m1 ! i ! j = (if int j = h \<and> int i \<in> set vs then 1 else msk ! i ! j)"
    by blast
  have hs: "\<forall>h\<in>set hs. 0 \<le> h \<and> h < int W" using Cons.prems(3) by simp
  from Cons.IH [OF m1(2) Cons.prems(2) hs]
  obtain m where m: "fill_columns hs vs m1 = Inr m" "rectangular m H W"
    and mv: "\<forall>i<H. \<forall>j<W. m ! i ! j = (if int j \<in> set hs \<and> int i \<in> set vs then 1 else m1 ! i ! j)"
    by blast
  have "\<forall>i<H. \<forall>j<W. m ! i ! j = (if int j \<in> set (h # hs) \<and> int i \<in> set vs then 1 else msk ! i ! j)"
    using mv v1 by auto
  then show ?case using m1 m by auto
qed

lemma py_int_upper: "x < real W \<Longrightarrow> 0 < W \<Longrightarrow> py_int x + 1 \<le> int W"
  unfolding py_int_def by (auto simp: floor_less_iff ceiling_le_iff; linarith)

lemma py_int_nonneg: "0 \<le> x \<Longrightarrow> 0 \<le> py_int x"
  unfolding py_int_def by simp

lemma h_bounds_in_image:
  assumes "0 \<le> fst (roi_size (roi_xy g))" "0 < fst (u_image_size g)"
  shows "0 \<le> fst (h_bounds g) \<and> snd (h_bounds g) \<le> int (fst (u_image_size g))"
proof -
  let ?p = "fst (roi_pos (roi_xy g))" and ?s = "fst (roi_size (roi_xy g))"
  let ?W = "fst (u_image_size g)"
  have lo: "\<not> ?p - ?s \<le> 0 \<Longrightarrow> 0 \<le> py_int (?p - ?s / 2)"
    using assms(1) by (intro py_int_nonneg) linarith
  have hi: "\<not> real ?W \<le> ?p + ?s \<Longrightarrow> py_int (?p + ?s / 2) + 1 \<le> int ?W"
    using assms by (intro py_int_upper) (linarith, simp)
  show ?thesis
    using lo hi by (simp add: h_bounds_def Let_def)
qed

lemma v_bounds_in_image:
  assumes "0 \<le> snd (roi_size (roi_xy g))" "0 < snd (u_image_size g)"
  shows "0 \<le> fst (v_bounds g) \<and> snd (v_bounds g) \<le> int (snd (u_image_size g))"
proof -
  let ?p = "snd (roi_pos (roi_xy g))" and ?s = "snd (roi_size (roi_xy g))"
  let ?H = "snd (u_image_size g)"
  have lo: "\<not> ?p - ?s \<le> 0 \<Longrightarrow> 0 \<le> py_int (?p - ?s / 2)"
    using assms(1) by (intro py_int_nonneg) linarith
  have hi: "\<not> real ?H \<le> ?p + ?s \<Longrightarrow> py_int (?p + ?s / 2) + 1 \<le> int ?H"
    using assms by (intro py_int_upper) (linarith, simp)
  show ?thesis
    using lo hi by (simp add: v_bounds_def Let_def)
qed

lemma set_py_range: "set (py_range a b) = {a..<b}"
  by (auto simp: py_range_def)

lemma rectangular_zeros:
  "rectangular img H W \<Longrightarrow> rectangular (map (map (\<lambda>x. x * 0)) img) H W"
  by (simp add: rectangular_def)

lemma create_mask_ROI_result:
  assumes rect: "rectangular img (snd (u_image_size g)) (fst (u_image_size g))"
    and s: "0 \<le> fst (roi_size (roi_xy g))" "0 \<le> snd (roi_size (roi_xy g))"
    and d: "0 < fst (u_image_size g)" "0 < snd (u_image_size g)"
  shows "\<exists>m. create_mask_ROI img g = Inr m \<and>
           rectangular m (snd (u_image_size g)) (fst (u_image_size g)) \<and>
           (\<forall>v<snd (u_image_size g). \<forall>h<fst (u_image_size g).
              m ! v ! h =
                (if fst (h_bounds g) \<le> int h \<and> int h < snd (h_bounds g) \<and>
                    fst (v_bounds g) \<le> int v \<and> int v < snd (v_bounds g)
                 then 1 else 0))"
proof -
  let ?H = "snd (u_image_size g)" and ?W = "fst (u_image_size g)"
  let ?hs = "py_range (fst (h_bounds g)) (snd (h_bounds g))"
  let ?vs = "py_range (fst (v_bounds g)) (snd (v_bounds g))"
  let ?z = "map (map (\<lambda>x. x * 0)) img"
  have hb: "\<forall>h\<in>set ?hs. 0 \<le> h \<and> h < int ?W"
    using h_bounds_in_image [OF s(1) d(1)] by (auto simp: set_py_range)
  have vb: "\<forall>v\<in>set ?vs. 0 \<le> v \<and> v < int ?H"
    using v_bounds_in_image [OF s(2) d(2)] by (auto simp: set_py_range)
  from fill_columns_result [OF rectangular_zeros [OF rect] vb hb]
  obtain m where m: "fill_columns ?hs ?vs ?z = Inr m" "rectangular m ?H ?W"
    and mv: "\<forall>i<?H. \<forall>j<?W. m ! i ! j = (if int j \<in> set ?hs \<and> int i \<in> set ?vs then 1 else ?z ! i ! j)"
    by blast
  have z: "\<forall>i<?H. \<forall>j<?W. ?z ! i ! j = 0"
    using rect by (simp add: rectangular_def)
  have "\<forall>v<?H. \<forall>h<?W. m ! v ! h =
          (if fst (h_bounds g) \<le> int h \<and> int h < snd (h_bounds g) \<and>
              fst (v_bounds g) \<le> int v \<and> int v < snd (v_bounds g)
           then 1 else 0)"
    using mv z by (simp add: set_py_range)
  then show ?thesis
    using m by (simp add: create_mask_ROI_def Let_def)
qed

lemma update_intensity_total:
  "well_formed g \<Longrightarrow> \<exists>i. update_intensity g = Inr (g\<lparr>intensity_current := i\<rparr>)"
proof -
  assume "well_formed g"
  then obtain m where "create_mask_ROI (u_raw_data_image g) g = Inr m"
    using create_mask_ROI_result [of "u_raw_data_image g" g] unfolding well_formed_def by blast
  then have "update_intensity g = Inr (g\<lparr>intensity_current :=
      (if fst (roi_size (roi_xy g)) * snd (roi_size (roi_xy g)) = 0 then None
       else Some (sum_list (map sum_list (map2 (map2 (*)) m (u_raw_data_image g))) /
                   (fst (roi_size (roi_xy g)) * snd (roi_size (roi_xy g)))))\<rparr>)"
    by (simp add: update_intensity_def Let_def)
  then show ?thesis by blast
qed

lemma update_intensity_frame:
  "update_intensity g = Inr g' \<Longrightarrow> \<exists>i. g' = g\<lparr>intensity_current := i\<rparr>"
  by (cases "create_mask_ROI (u_raw_data_image g) g") (auto simp: update_intensity_def Let_def)

lemma well_formed_cong:
  "roi_size (roi_xy g') = roi_size (roi_xy g) \<Longrightarrow> u_raw_data_image g' = u_raw_data_image g \<Longrightarrow>
   u_image_size g' = u_image_size g \<Longrightarrow> well_formed g' = well_formed g"
  by (simp add: well_formed_def)

lemma update_from_roi_xy_total:
  assumes "well_formed g"
  shows "\<exists>i. update_from_roi_xy g =
           Inr (update_input_y (snd (roi_pos (roi_xy g)) + 0.5 * snd (roi_size (roi_xy g)))
                 (update_input_x (fst (roi_pos (roi_xy g)) + 0.5 * fst (roi_size (roi_xy g))) g)
                \<lparr>intensity_current := i\<rparr>)"
proof -
  let ?g1 = "update_input_y (snd (roi_pos (roi_xy g)) + 0.5 * snd (roi_size (roi_xy g)))
                 (update_input_x (fst (roi_pos (roi_xy g)) + 0.5 * fst (roi_size (roi_xy g))) g)"
  have "well_formed ?g1"
    using assms by (simp add: well_formed_def update_input_x_def update_input_y_def)
  from update_intensity_total [OF this] show ?thesis
    by (simp add: update_from_roi_xy_def Let_def)
qed

lemma update_from_roi_xy_frame:
  assumes "update_from_roi_xy g = Inr g'"
  shows "\<exists>i. g' =
           (update_input_y (snd (roi_pos (roi_xy g)) + 0.5 * snd (roi_size (roi_xy g)))
                 (update_input_x (fst (roi_pos (roi_xy g)) + 0.5 * fst (roi_size (roi_xy g))) g))
                \<lparr>intensity_current := i\<rparr>"
  using assms update_intensity_frame by (simp add: update_from_roi_xy_def Let_def)

lemma sigRegionChanged_frame:
  assumes "sigRegionChanged g = Inr g'"
  shows "\<exists>i. g' = after_region_change g i"
proof (cases "userDrag (roi_xy g)")
  case True
  then obtain g1 where g1: "update_from_roi_xy g = Inr g1"
    and g': "g' = g1\<lparr>hline_xy := adjust (hline_xy g1) (roi_xy g1),
                     vline_xy := adjust (vline_xy g1) (roi_xy g1)\<rparr>"
    using assms by (auto simp: sigRegionChanged_def regionUpdateInfo_def Let_def split: sum.splits)
  from update_from_roi_xy_frame [OF g1] obtain i where
    "g1 = (update_input_y (snd (roi_pos (roi_xy g)) + 0.5 * snd (roi_size (roi_xy g)))
                 (update_input_x (fst (roi_pos (roi_xy g)) + 0.5 * fst (roi_size (roi_xy g))) g))
                \<lparr>intensity_current := i\<rparr>" by blast
  then have "g' = after_region_change g i"
    using g' True by (simp add: after_region_change_def update_input_x_def update_input_y_def)
  then show ?thesis by blast
next
  case False
  then have "g' = after_region_change g None"
    using assms by (simp add: sigRegionChanged_def regionUpdateInfo_def Let_def after_region_change_def)
  then show ?thesis by blast
qed

lemma sigRegionChanged_total:
  assumes "well_formed g"
  shows "\<exists>i. sigRegionChanged g = Inr (after_region_change g i)"
proof (cases "userDrag (roi_xy g)")
  case True
  from update_from_roi_xy_total [OF assms] obtain i where
    "update_from_roi_xy g =
       Inr ((update_input_y (snd (roi_pos (roi_xy g)) + 0.5 * snd (roi_size (roi_xy g)))
                 (update_input_x (fst (roi_pos (roi_xy g)) + 0.5 * fst (roi_size (roi_xy g))) g))
                \<lparr>intensity_current := i\<rparr>)" by blast
  then have "sigRegionChanged g = Inr (after_region_change g i)"
    using True
    by (simp add: sigRegionChanged_def regionUpdateInfo_def Let_def after_region_change_def
          update_input_x_def update_input_y_def)
  then show ?thesis by blast
next
  case False
  then have "sigRegionChanged g = Inr (after_region_change g None)"
    by (simp add: sigRegionChanged_def regionUpdateInfo_def Let_def after_region_change_def)
  then show ?thesis by blast
qed

lemma after_region_change_fields:
  "roi_xy (after_region_change g i) = roi_xy g"
  "u_raw_data_image (after_region_change g i) = u_raw_data_image g"
  "u_image_size (after_region_change g i) = u_image_size g"
  "u_pixel_size_x (after_region_change g i) = u_pixel_size_x g"
  "u_pixel_size_y (after_region_change g i) = u_pixel_size_y g"
  "cursor_x_size_input (after_region_change g i) = cursor_x_size_input g"
  "cursor_y_size_input (after_region_change g i) = cursor_y_size_input g"
  "hline_xy (after_region_change g i) = adjust (hline_xy g) (roi_xy g)"
  "vline_xy (after_region_change g i) = adjust (vline_xy g) (roi_xy g)"
  by (simp_all add: after_region_change_def update_input_x_def update_input_y_def)


lemma moved_fields:
  "roi_pos (roi_xy (moved p g)) = p"
  "roi_size (roi_xy (moved p g)) = roi_size (roi_xy g)"
  "userDrag (roi_xy (moved p g)) = userDrag (roi_xy g)"
  "u_raw_data_image (moved p g) = u_raw_data_image g"
  "u_image_size (moved p g) = u_image_size g"
  "u_pixel_size_x (moved p g) = u_pixel_size_x g"
  "u_pixel_size_y (moved p g) = u_pixel_size_y g"
  "hline_xy (moved p g) = hline_xy g"
  "vline_xy (moved p g) = vline_xy g"
  "x_current_InputWidget_pixels (moved p g) = x_current_InputWidget_pixels g"
  "x_current_InputWidget_meter (moved p g) = x_current_InputWidget_meter g"
  "y_current_InputWidget_pixels (moved p g) = y_current_InputWidget_pixels g"
  "y_current_InputWidget_meter (moved p g) = y_current_InputWidget_meter g"
  by (simp_all add: moved_def)

lemma well_formed_moved: "well_formed (moved p g) = well_formed g"
  by (rule well_formed_cong) (simp_all add: moved_fields)

lemma well_formed_after_region_change: "well_formed (after_region_change g i) = well_formed g"
  by (rule well_formed_cong) (simp_all add: after_region_change_fields)

lemma well_formed_intensity: "well_formed (g\<lparr>intensity_current := i\<rparr>) = well_formed g"
  by (rule well_formed_cong) simp_all

lemma setPos_frame:
  assumes "setPos p g = Inr g'"
  shows "(p = roi_pos (roi_xy g) \<and> g' = moved p g) \<or>
         (p \<noteq> roi_pos (roi_xy g) \<and> (\<exists>i. g' = after_region_change (moved p g) i))"
proof (cases "p = roi_pos (roi_xy g)")
  case True
  then show ?thesis using assms by (simp add: setPos_def Let_def moved_def)
next
  case False
  then have "sigRegionChanged (moved p g) = Inr g'"
    using assms by (simp add: setPos_def Let_def moved_def)
  from sigRegionChanged_frame [OF this] False show ?thesis by blast
qed

lemma setPos_total:
  assumes "well_formed g"
  shows "\<exists>g'. setPos p g = Inr g' \<and> well_formed g'"
proof (cases "p = roi_pos (roi_xy g)")
  case True
  then have "setPos p g = Inr (moved p g)" by (simp add: setPos_def Let_def moved_def)
  then show ?thesis using assms by (simp add: well_formed_moved)
next
  case False
  have wf: "well_formed (moved p g)" using assms by (simp add: well_formed_moved)
  from sigRegionChanged_total [OF wf] obtain i where
    "sigRegionChanged (moved p g) = Inr (after_region_change (moved p g) i)" by blast
  then have "setPos p g = Inr (after_region_change (moved p g) i)"
    using False by (simp add: setPos_def Let_def moved_def)
  then show ?thesis using wf by (simp add: well_formed_after_region_change)
qed

lemma update_roi_xy_unfold:
  "update_roi_xy h v g =
     (case setPos (roi_target h v g) g of Inl e \<Rightarrow> Inl e | Inr g1 \<Rightarrow> update_intensity g1)"
  by (simp add: update_roi_xy_def roi_target_def Let_def)

lemma update_roi_xy_frame:
  assumes "update_roi_xy h v g = Inr g'"
  shows "\<exists>j. (roi_target h v g = roi_pos (roi_xy g) \<and>
                g' = (moved (roi_target h v g) g)\<lparr>intensity_current := j\<rparr>) \<or>
              (roi_target h v g \<noteq> roi_pos (roi_xy g) \<and>
                (\<exists>i. g' = (after_region_change (moved (roi_target h v g) g) i)\<lparr>intensity_current := j\<rparr>))"
proof -
  from assms obtain g1 where g1: "setPos (roi_target h v g) g = Inr g1"
    and g': "update_intensity g1 = Inr g'"
    by (auto simp: update_roi_xy_unfold split: sum.splits)
  from update_intensity_frame [OF g'] obtain j where j: "g' = g1\<lparr>intensity_current := j\<rparr>"
    by blast
  from setPos_frame [OF g1] j show ?thesis by blast
qed

lemma update_roi_xy_total:
  assumes "well_formed g"
  shows "\<exists>g'. update_roi_xy h v g = Inr g' \<and> well_formed g'"
proof -
  from setPos_total [OF assms] obtain g1 where
    g1: "setPos (roi_target h v g) g = Inr g1" "well_formed g1" by blast
  from update_intensity_total [OF g1(2)] obtain i where
    "update_intensity g1 = Inr (g1\<lparr>intensity_current := i\<rparr>)" by blast
  then show ?thesis using g1 by (simp add: update_roi_xy_unfold well_formed_intensity)
qed

lemma update_roi_xy_roi:
  assumes "update_roi_xy h v g = Inr g'"
  shows "roi_xy g' = (roi_xy g)\<lparr>roi_pos := roi_target h v g\<rparr>"
  using update_roi_xy_frame [OF assms]
  by (auto simp: after_region_change_fields) (simp_all add: moved_def)


lemma rectangular_eye: "rectangular (eye n) n n"
  by (simp add: rectangular_def eye_def)

lemma well_formed_dragged_gui: "0 \<le> fst s \<Longrightarrow> 0 \<le> snd s \<Longrightarrow> well_formed (dragged_gui p s)"
  by (simp add: well_formed_def dragged_gui_def createCrosshair_def rectangular_eye)

text \<open>
  Claim C8. Whenever \<open>update_roi_xy(h, v)\<close> returns, the size of the region of interest
  is unchanged; on each axis where the argument is given the centre of the region (origin
  plus half its size) equals the argument, and on each axis where it is \<open>None\<close> the origin
  coordinate is unchanged. It returns whenever the region has a non-negative size and the
  image is a non-empty rectangle of the recorded \<open>_image_size\<close>.
\<close>

theorem update_roi_xy_centres:
  "(update_roi_xy h v g = Inr g' \<longrightarrow>
      roi_size (roi_xy g') = roi_size (roi_xy g) \<and>
      (\<forall>x. h = Some x \<longrightarrow> fst (roi_centre (roi_xy g')) = x) \<and>
      (h = None \<longrightarrow> fst (roi_pos (roi_xy g')) = fst (roi_pos (roi_xy g))) \<and>
      (\<forall>y. v = Some y \<longrightarrow> snd (roi_centre (roi_xy g')) = y) \<and>
      (v = None \<longrightarrow> snd (roi_pos (roi_xy g')) = snd (roi_pos (roi_xy g)))) \<and>
   (well_formed g \<longrightarrow> (\<exists>g1. update_roi_xy h v g = Inr g1))"
proof (intro conjI impI)
  assume r: "update_roi_xy h v g = Inr g'"
  note roi = update_roi_xy_roi [OF r]
  show "roi_size (roi_xy g') = roi_size (roi_xy g)" by (simp add: roi)
  show "\<forall>x. h = Some x \<longrightarrow> fst (roi_centre (roi_xy g')) = x"
    by (simp add: roi roi_centre_def roi_target_def)
  show "\<forall>y. v = Some y \<longrightarrow> snd (roi_centre (roi_xy g')) = y"
    by (simp add: roi roi_centre_def roi_target_def)
  show "fst (roi_pos (roi_xy g')) = fst (roi_pos (roi_xy g))" if "h = None"
    using that by (simp add: roi roi_target_def)
  show "snd (roi_pos (roi_xy g')) = snd (roi_pos (roi_xy g))" if "v = None"
    using that by (simp add: roi roi_target_def)
next
  assume "well_formed g"
  from update_roi_xy_total [OF this] show "\<exists>g1. update_roi_xy h v g = Inr g1" by blast
qed

text \<open>Claim C8 at a concrete panel: a 2 by 4 region at (5, 5), moved with \<open>h = 7\<close> only.\<close>

theorem update_roi_xy_centres_witness:
  "\<exists>g'. update_roi_xy (Some 7) None (dragged_gui (5, 5) (2, 4)) = Inr g' \<and>
         roi_size (roi_xy g') = (2, 4) \<and> fst (roi_centre (roi_xy g')) = 7 \<and>
         snd (roi_pos (roi_xy g')) = 5"
proof -
  let ?g = "dragged_gui (5, 5) (2, 4)"
  have wf: "well_formed ?g" by (simp add: well_formed_dragged_gui)
  have roi: "roi_xy ?g = \<lparr>roi_pos = (5, 5), roi_size = (2, 4), userDrag = False\<rparr>"
    by (simp add: dragged_gui_def)
  from update_roi_xy_centres [of "Some 7" None ?g] wf
  obtain g1 where g1: "update_roi_xy (Some 7) None ?g = Inr g1" by blast
  from update_roi_xy_centres [of "Some 7" None ?g g1] g1
  have "roi_size (roi_xy g1) = roi_size (roi_xy ?g)" "fst (roi_centre (roi_xy g1)) = 7"
    "snd (roi_pos (roi_xy g1)) = snd (roi_pos (roi_xy ?g))"
    by simp_all
  then show ?thesis using g1 by (simp add: roi)
qed

lemma roi_xy_bounds_check_unfold:
  "roi_xy_bounds_check g =
     update_roi_xy
       (Some (let h_pos = fst (roi_pos (roi_xy g)) + 0.5 * fst (roi_size (roi_xy g));
                  max_h_pos = real (fst (u_image_size g))
              in if h_pos < 0 then 0 else if h_pos > max_h_pos then max_h_pos else h_pos))
       (Some (let v_pos = snd (roi_pos (roi_xy g)) + 0.5 * snd (roi_size (roi_xy g));
                  max_v_pos = real (snd (u_image_size g))
              in if v_pos < 0 then 0 else if v_pos > max_v_pos then max_v_pos else v_pos))
       g"
  by (simp add: roi_xy_bounds_check_def Let_def)

lemma clamp_code: "(if x < 0 then 0 else if x > real W then real W else x) = max 0 (min (real W) x)"
  by (simp add: max_def min_def)

text \<open>
  Claim C3. Whenever \<open>roi_xy_bounds_check\<close> returns, the region keeps its size and its
  centre is the previous centre clamped to [0, width] horizontally and to [0, height]
  vertically; a centre already inside those bounds is unchanged. It returns whenever the
  region has a non-negative size and the image is a non-empty rectangle of the recorded
  \<open>_image_size\<close>.
\<close>

theorem roi_xy_bounds_check_clamps:
  "(roi_xy_bounds_check g = Inr g' \<longrightarrow>
      roi_size (roi_xy g') = roi_size (roi_xy g) \<and>
      fst (roi_centre (roi_xy g')) =
        max 0 (min (real (fst (u_image_size g))) (fst (roi_centre (roi_xy g)))) \<and>
      snd (roi_centre (roi_xy g')) =
        max 0 (min (real (snd (u_image_size g))) (snd (roi_centre (roi_xy g)))) \<and>
      (0 \<le> fst (roi_centre (roi_xy g)) \<and> fst (roi_centre (roi_xy g)) \<le> real (fst (u_image_size g)) \<and>
       0 \<le> snd (roi_centre (roi_xy g)) \<and> snd (roi_centre (roi_xy g)) \<le> real (snd (u_image_size g))
         \<longrightarrow> roi_centre (roi_xy g') = roi_centre (roi_xy g))) \<and>
   (well_formed g \<longrightarrow> (\<exists>g1. roi_xy_bounds_check g = Inr g1))"
proof (intro conjI impI)
  assume r: "roi_xy_bounds_check g = Inr g'"
  note roi = update_roi_xy_roi [OF r [unfolded roi_xy_bounds_check_unfold]]
  show size: "roi_size (roi_xy g') = roi_size (roi_xy g)" by (simp add: roi)
  show cx: "fst (roi_centre (roi_xy g')) =
        max 0 (min (real (fst (u_image_size g))) (fst (roi_centre (roi_xy g))))"
    by (simp add: roi roi_centre_def roi_target_def Let_def clamp_code)
  show cy: "snd (roi_centre (roi_xy g')) =
        max 0 (min (real (snd (u_image_size g))) (snd (roi_centre (roi_xy g))))"
    by (simp add: roi roi_centre_def roi_target_def Let_def clamp_code)
  show "roi_centre (roi_xy g') = roi_centre (roi_xy g)"
    if "0 \<le> fst (roi_centre (roi_xy g)) \<and> fst (roi_centre (roi_xy g)) \<le> real (fst (u_image_size g)) \<and>
       0 \<le> snd (roi_centre (roi_xy g)) \<and> snd (roi_centre (roi_xy g)) \<le> real (snd (u_image_size g))"
    using that cx cy by (simp add: prod_eq_iff)
next
  assume "well_formed g"
  from update_roi_xy_total [OF this] show "\<exists>g1. roi_xy_bounds_check g = Inr g1"
    unfolding roi_xy_bounds_check_unfold by blast
qed

text \<open>
  Claim C3 at a concrete panel: a 2 by 4 region dragged to (2000, -3) on the 1000 by 1000
  image comes back with its centre at (1000, 0).
\<close>

theorem roi_xy_bounds_check_clamps_witness:
  "\<exists>g'. roi_xy_bounds_check (dragged_gui (2000, -3) (2, 4)) = Inr g' \<and>
         roi_size (roi_xy g') = (2, 4) \<and> roi_centre (roi_xy g') = (1000, 0)"
proof -
  let ?g = "dragged_gui (2000, -3) (2, 4)"
  have wf: "well_formed ?g" by (simp add: well_formed_dragged_gui)
  have roi: "roi_xy ?g = \<lparr>roi_pos = (2000, -3), roi_size = (2, 4), userDrag = False\<rparr>"
    "u_image_size ?g = (1000, 1000)"
    by (simp_all add: dragged_gui_def createCrosshair_def)
  from roi_xy_bounds_check_clamps [of ?g] wf
  obtain g1 where g1: "roi_xy_bounds_check ?g = Inr g1" by blast
  from roi_xy_bounds_check_clamps [of ?g g1] g1
  have "roi_size (roi_xy g1) = roi_size (roi_xy ?g)"
    "fst (roi_centre (roi_xy g1)) =
        max 0 (min (real (fst (u_image_size ?g))) (fst (roi_centre (roi_xy ?g))))"
    "snd (roi_centre (roi_xy g1)) =
        max 0 (min (real (snd (u_image_size ?g))) (snd (roi_centre (roi_xy ?g))))"
    by simp_all
  then have "roi_size (roi_xy g1) = (2, 4) \<and> roi_centre (roi_xy g1) = (1000, 0)"
    by (simp add: roi roi_centre_def prod_eq_iff)
  then show ?thesis using g1 by blast
qed

lemma adjust_horizontal:
  "angle l = 0 \<Longrightarrow> adjust l roi = l\<lparr>line_value := snd (roi_pos roi) + snd (roi_size roi) * 0.5\<rparr>"
  by (simp add: adjust_def Let_def)

lemma adjust_vertical:
  "angle l = 90 \<Longrightarrow> adjust l roi = l\<lparr>line_value := fst (roi_pos roi) + fst (roi_size roi) * 0.5\<rparr>"
  by (simp add: adjust_def Let_def)

lemma after_region_change_centred:
  "angle (hline_xy g) = 0 \<Longrightarrow> angle (vline_xy g) = 90 \<Longrightarrow> crosshair_centred (after_region_change g i)"
  by (simp add: crosshair_centred_def after_region_change_fields adjust_horizontal adjust_vertical)

lemma crosshair_centred_cong:
  "roi_xy g' = roi_xy g \<Longrightarrow> hline_xy g' = hline_xy g \<Longrightarrow> vline_xy g' = vline_xy g \<Longrightarrow>
   crosshair_centred g' = crosshair_centred g"
  by (simp add: crosshair_centred_def)

lemma update_intensity_centred:
  assumes "update_intensity g = Inr g'"
  shows "crosshair_centred g' = crosshair_centred g"
proof -
  from update_intensity_frame [OF assms] obtain i where "g' = g\<lparr>intensity_current := i\<rparr>" by blast
  then show ?thesis by (simp add: crosshair_centred_def)
qed

lemma setPos_centred:
  assumes c: "crosshair_centred g" and r: "setPos p g = Inr g'"
  shows "crosshair_centred g'"
proof -
  from setPos_frame [OF r] show ?thesis
  proof (elim disjE conjE exE)
    assume "p = roi_pos (roi_xy g)" "g' = moved p g"
    then show ?thesis using c by (simp add: crosshair_centred_def moved_fields)
  next
    fix i assume g': "g' = after_region_change (moved p g) i"
    have "angle (hline_xy (moved p g)) = 0" "angle (vline_xy (moved p g)) = 90"
      using c by (simp_all add: moved_fields crosshair_centred_def)
    then show ?thesis unfolding g' by (rule after_region_change_centred)
  qed
qed

lemma update_roi_xy_centred:
  assumes c: "crosshair_centred g" and r: "update_roi_xy h v g = Inr g'"
  shows "crosshair_centred g'"
proof -
  from r obtain g1 where g1: "setPos (roi_target h v g) g = Inr g1"
    and g': "update_intensity g1 = Inr g'"
    by (auto simp: update_roi_xy_unfold split: sum.splits)
  show ?thesis using setPos_centred [OF c g1] update_intensity_centred [OF g'] by simp
qed

lemma roi_xy_bounds_check_centred:
  assumes "crosshair_centred g" and "roi_xy_bounds_check g = Inr g'"
  shows "crosshair_centred g'"
  using assms unfolding roi_xy_bounds_check_unfold by (rule update_roi_xy_centred)

lemma setSize_unfold:
  "setSize s g =
     (case (if s \<noteq> roi_size (roi_xy g) then sigRegionChanged (resized s g) else Inr (resized s g)) of
        Inl e \<Rightarrow> Inl e
      | Inr g2 \<Rightarrow> sigRegionChangeFinished g2)"
  by (simp add: setSize_def Let_def resized_def)

lemma setSize_centred:
  assumes c: "crosshair_centred g" and r: "setSize s g = Inr g'"
  shows "crosshair_centred g'"
proof -
  from r obtain g2 where
    g2: "(if s \<noteq> roi_size (roi_xy g) then sigRegionChanged (resized s g) else Inr (resized s g)) = Inr g2"
    and g': "sigRegionChangeFinished g2 = Inr g'"
    unfolding setSize_unfold by (auto split: sum.splits)
  have "crosshair_centred g2"
  proof (cases "s = roi_size (roi_xy g)")
    case True
    then have "g2 = resized s g" using g2 by simp
    then show ?thesis using c True by (simp add: crosshair_centred_def resized_def)
  next
    case False
    then have "sigRegionChanged (resized s g) = Inr g2" using g2 by simp
    from sigRegionChanged_frame [OF this] obtain i where g2': "g2 = after_region_change (resized s g) i"
      by blast
    have "angle (hline_xy (resized s g)) = 0" "angle (vline_xy (resized s g)) = 90"
      using c by (simp_all add: resized_def crosshair_centred_def)
    then show ?thesis unfolding g2' by (rule after_region_change_centred)
  qed
  then have "crosshair_centred (g2\<lparr>roi_xy := (roi_xy g2)\<lparr>userDrag := False\<rparr>\<rparr>)"
    by (simp add: crosshair_centred_def)
  then show ?thesis
    using g' unfolding sigRegionChangeFinished_def by (rule roi_xy_bounds_check_centred)
qed

text \<open>
  Claim C5. After the slots of \<open>sigRegionChanged\<close> have run, the horizontal line is at
  \<open>pos_y + size_y * 0.5\<close> and the vertical line at \<open>pos_x + size_x * 0.5\<close> of the region.
  \<open>createCrosshair\<close> starts in that state, and \<open>setPos\<close>, \<open>setSize\<close>,
  \<open>update_roi_xy\<close> and \<open>roi_xy_bounds_check\<close> keep it.
\<close>

theorem crosshair_tracks_centre:
  "(angle (hline_xy g) = 0 \<and> angle (vline_xy g) = 90 \<and> sigRegionChanged g = Inr g' \<longrightarrow>
      roi_xy g' = roi_xy g \<and>
      line_value (hline_xy g') = snd (roi_pos (roi_xy g')) + snd (roi_size (roi_xy g')) * 0.5 \<and>
      line_value (vline_xy g') = fst (roi_pos (roi_xy g')) + fst (roi_size (roi_xy g')) * 0.5) \<and>
   crosshair_centred (createCrosshair psx psy img isize) \<and>
   (crosshair_centred g \<longrightarrow>
      (setPos p g = Inr g' \<longrightarrow> crosshair_centred g') \<and>
      (setSize s g = Inr g' \<longrightarrow> crosshair_centred g') \<and>
      (update_roi_xy h v g = Inr g' \<longrightarrow> crosshair_centred g') \<and>
      (roi_xy_bounds_check g = Inr g' \<longrightarrow> crosshair_centred g')) \<and>
   (well_formed g \<longrightarrow> (\<exists>g1. sigRegionChanged g = Inr g1) \<and> (\<exists>g1. setPos p g = Inr g1))"
proof (intro conjI impI)
  assume a: "angle (hline_xy g) = 0 \<and> angle (vline_xy g) = 90 \<and> sigRegionChanged g = Inr g'"
  then obtain i where g': "g' = after_region_change g i"
    using sigRegionChanged_frame by blast
  have cen: "crosshair_centred g'"
    using a g' by (simp add: after_region_change_centred)
  show "roi_xy g' = roi_xy g" by (simp add: g' after_region_change_fields)
  show "line_value (hline_xy g') = snd (roi_pos (roi_xy g')) + snd (roi_size (roi_xy g')) * 0.5"
    using cen by (simp add: crosshair_centred_def)
  show "line_value (vline_xy g') = fst (roi_pos (roi_xy g')) + fst (roi_size (roi_xy g')) * 0.5"
    using cen by (simp add: crosshair_centred_def)
next
  show "crosshair_centred (createCrosshair psx psy img isize)"
    by (simp add: crosshair_centred_def createCrosshair_def Let_def)
next
  assume "crosshair_centred g" "setPos p g = Inr g'"
  then show "crosshair_centred g'" by (rule setPos_centred)
next
  assume "crosshair_centred g" "setSize s g = Inr g'"
  then show "crosshair_centred g'" by (rule setSize_centred)
next
  assume "crosshair_centred g" "update_roi_xy h v g = Inr g'"
  then show "crosshair_centred g'" by (rule update_roi_xy_centred)
next
  assume "crosshair_centred g" "roi_xy_bounds_check g = Inr g'"
  then show "crosshair_centred g'" by (rule roi_xy_bounds_check_centred)
next
  assume "well_formed g"
  from sigRegionChanged_total [OF this] show "\<exists>g1. sigRegionChanged g = Inr g1" by blast
next
  assume "well_formed g"
  from setPos_total [OF this] show "\<exists>g1. setPos p g = Inr g1" by blast
qed

text \<open>Claim C5 at a concrete panel: the initial region moved to (7, 8).\<close>

theorem crosshair_tracks_centre_witness:
  "\<exists>g'. setPos (7, 8) (dragged_gui (5, 5) (1, 1)) = Inr g' \<and>
         line_value (hline_xy g') = 8.5 \<and> line_value (vline_xy g') = 7.5"
proof -
  let ?g = "dragged_gui (5, 5) (1, 1)"
  have eq: "?g = createCrosshair 1 1 (eye 1000) (1000, 1000)"
    by (simp add: dragged_gui_def createCrosshair_def)
  have wf: "well_formed ?g" by (simp add: well_formed_dragged_gui)
  have cen: "crosshair_centred ?g"
    using crosshair_tracks_centre [of ?g ?g 1 1 "eye 1000" "(1000, 1000)"] by (simp add: eq)
  from crosshair_tracks_centre [of ?g ?g 1 1 "eye 1000" "(1000, 1000)" "(7, 8)"] wf
  obtain g1 where g1: "setPos (7, 8) ?g = Inr g1" by blast
  have "crosshair_centred g1"
    using crosshair_tracks_centre [of ?g g1 1 1 "eye 1000" "(1000, 1000)" "(7, 8)"] cen g1 by blast
  moreover have "roi_xy g1 = \<lparr>roi_pos = (7, 8), roi_size = (1, 1), userDrag = False\<rparr>"
    using setPos_frame [OF g1]
    by (auto simp: after_region_change_fields) (simp_all add: moved_def dragged_gui_def)
  ultimately have "line_value (hline_xy g1) = 8.5 \<and> line_value (vline_xy g1) = 7.5"
    by (simp add: crosshair_centred_def)
  then show ?thesis using g1 by blast
qed











lemma rectangular_eq_map:
  assumes "rectangular m H W" and "\<forall>v<H. \<forall>h<W. m ! v ! h = f v h"
  shows "m = map (\<lambda>v. map (\<lambda>h. f v h) [0..<W]) [0..<H]"
proof (rule nth_equalityI)
  show "length m = length (map (\<lambda>v. map (\<lambda>h. f v h) [0..<W]) [0..<H])"
    using assms(1) by (simp add: rectangular_def)
next
  fix v assume "v < length m"
  then have v: "v < H" using assms(1) by (simp add: rectangular_def)
  have "m ! v = map (\<lambda>h. f v h) [0..<W]"
  proof (rule nth_equalityI)
    show "length (m ! v) = length (map (\<lambda>h. f v h) [0..<W])"
      using assms(1) v by (simp add: rectangular_def)
  next
    fix h assume "h < length (m ! v)"
    then have "h < W" using assms(1) v by (simp add: rectangular_def)
    then show "m ! v ! h = map (\<lambda>h. f v h) [0..<W] ! h"
      using assms(2) v by simp
  qed
  then show "m ! v = map (\<lambda>v. map (\<lambda>h. f v h) [0..<W]) [0..<H] ! v"
    using v by simp
qed

lemma py_int_half: "py_int (9 / 2) = 4" "py_int (11 / 2) = 5"
  by (simp_all add: py_int_def)

lemma default_bounds:
  "h_bounds (createCrosshair psx psy (eye 1000) (1000, 1000)) = (4, 6)"
  "v_bounds (createCrosshair psx psy (eye 1000) (1000, 1000)) = (4, 6)"
proof -
  have a: "(5::real) - 1 / 2 = 9 / 2" "(5::real) + 1 / 2 = 11 / 2" by simp_all
  show "h_bounds (createCrosshair psx psy (eye 1000) (1000, 1000)) = (4, 6)"
    by (simp add: h_bounds_def createCrosshair_def Let_def a py_int_half)
  show "v_bounds (createCrosshair psx psy (eye 1000) (1000, 1000)) = (4, 6)"
    by (simp add: v_bounds_def createCrosshair_def Let_def a py_int_half)
qed

text \<open>
  Claim C9 at the panel as \<open>createCrosshair\<close> leaves it: the region of interest is the
  unit square with origin (5, 5), that is pixel (5, 5) of the 1000 by 1000 image, and the
  mask returned is 1 on the four pixels with both indices in {4, 5}: it is 1 at
  \<open>[4][4]\<close>, outside the region.
\<close>

theorem create_mask_ROI_default:
  "roi_pos (roi_xy (createCrosshair 1 1 (eye 1000) (1000, 1000))) = (5, 5) \<and>
   roi_size (roi_xy (createCrosshair 1 1 (eye 1000) (1000, 1000))) = (1, 1) \<and>
   create_mask_ROI (eye 1000) (createCrosshair 1 1 (eye 1000) (1000, 1000)) =
     Inr (map (\<lambda>v. map (\<lambda>h. if 4 \<le> int h \<and> int h < 6 \<and> 4 \<le> int v \<and> int v < 6 then 1 else 0)
                       [0..<1000]) [0..<1000])"
proof -
  let ?g = "createCrosshair 1 1 (eye 1000) (1000, 1000)"
  have f: "roi_pos (roi_xy ?g) = (5, 5)" "roi_size (roi_xy ?g) = (1, 1)"
    "u_image_size ?g = (1000, 1000)"
    by (simp_all add: createCrosshair_def)
  have "\<exists>m. create_mask_ROI (eye 1000) ?g = Inr m \<and>
           rectangular m (snd (u_image_size ?g)) (fst (u_image_size ?g)) \<and>
           (\<forall>v<snd (u_image_size ?g). \<forall>h<fst (u_image_size ?g).
              m ! v ! h =
                (if fst (h_bounds ?g) \<le> int h \<and> int h < snd (h_bounds ?g) \<and>
                    fst (v_bounds ?g) \<le> int v \<and> int v < snd (v_bounds ?g)
                 then 1 else 0))"
    by (rule create_mask_ROI_result) (simp_all add: f rectangular_eye)
  then obtain m where m: "create_mask_ROI (eye 1000) ?g = Inr m" "rectangular m 1000 1000"
    and mv: "\<forall>v<1000. \<forall>h<1000. m ! v ! h =
               (if 4 \<le> int h \<and> int h < 6 \<and> 4 \<le> int v \<and> int v < 6 then 1 else 0)"
    by (auto simp: f default_bounds)
  have "m = map (\<lambda>v. map (\<lambda>h. if 4 \<le> int h \<and> int h < 6 \<and> 4 \<le> int v \<and> int v < 6 then 1 else 0)
                       [0..<1000]) [0..<1000]"
    using m(2) mv by (rule rectangular_eq_map)
  then show ?thesis using m(1) f by simp
qed

lemma default_mask_outside_roi:
  "map (\<lambda>v. map (\<lambda>h. if 4 \<le> int h \<and> int h < 6 \<and> 4 \<le> int v \<and> int v < 6 then 1 else (0::real))
                       [0..<1000]) [0..<1000] ! 4 ! 4 = 1"
  by simp

end
